theory Spec2Isabelle
  imports Main "HOL-Library.Word" "HOL-Library.AList"
begin

section \<open>Machine types and constants\<close>

text \<open>
  The programs are eBPF probes written in C.  Fixed-width C integers are words:
  \<open>__s32\<close>, \<open>__u32\<close>, \<open>pid_t\<close> and \<open>uid_t\<close> are 32-bit words (read with
  \<open>sint\<close> where the C type is signed and with \<open>unat\<close> where it is unsigned),
  \<open>__u64\<close> and \<open>long\<close> are 64-bit words, \<open>char\<close> is a byte.
\<close>

type_synonym byte = "8 word"
type_synonym u32 = "32 word"
type_synonym s32 = "32 word"
type_synonym u64 = "64 word"

text \<open>\<^verbatim>\<open>execsnoop_types.h\<close>, lines 10-13, and \<^verbatim>\<open>execsnoop.bpf.c\<close>, line 11.\<close>

definition TASK_COMM_LEN :: nat where
  "TASK_COMM_LEN = 16"

definition ARGSIZE :: nat where
  "ARGSIZE = 128"

definition TOTAL_MAX_ARGS :: nat where
  "TOTAL_MAX_ARGS = 60"

definition FULL_MAX_ARGS_ARR :: nat where
  "FULL_MAX_ARGS_ARR = TOTAL_MAX_ARGS * ARGSIZE"

definition DEFAULT_MAXARGS :: nat where
  "DEFAULT_MAXARGS = 20"

section \<open>The execve tracer: data\<close>

text \<open>
  \<^verbatim>\<open>struct execsnoop_event\<close> (\<^verbatim>\<open>execsnoop_types.h\<close>, lines 15-24) and
  \<^verbatim>\<open>struct event\<close> (\<^verbatim>\<open>execsnoop.bpf.c\<close>, lines 14-17).  The C arrays
  \<open>comm[TASK_COMM_LEN]\<close> and \<open>args[FULL_MAX_ARGS_ARR]\<close> are byte lists; that an array
  has exactly that many bytes is stated where it is needed.
\<close>

record execsnoop_event =
  pid :: s32
  ppid :: s32
  uid :: u32
  retval :: s32
  args_count :: s32
  args_size :: u32
  comm :: "byte list"

record event =
  base :: execsnoop_event
  args :: "byte list"

text \<open>
  \<open>sizeof(struct event)\<close>: six 4-byte integers, the 16-byte name and the argument array.
\<close>

definition sizeof_event :: nat where
  "sizeof_event = 6 * 4 + TASK_COMM_LEN + FULL_MAX_ARGS_ARR"

section \<open>Kernel helpers\<close>

text \<open>
  The helpers the probes call live in the kernel, not in the repository.  Each one is
  given here by the contract the probes rely on.
\<close>

subsection \<open>User memory\<close>

text \<open>
  User memory as the two read helpers see it.  \<open>ptr_at a = Some p\<close>: the eight bytes at
  address \<open>a\<close> are readable and hold the pointer \<open>p\<close>; \<open>None\<close>: the read faults.
  \<open>str_at p = Some s\<close>: the bytes at \<open>p\<close> are readable up to a terminating NUL and \<open>s\<close>
  is what stands before that NUL; \<open>None\<close>: the read faults.
\<close>

record user_mem =
  ptr_at :: "u64 \<Rightarrow> u64 option"
  str_at :: "u64 \<Rightarrow> byte list option"

text \<open>
  Modelled from the spec: the kernel helper \<open>bpf_probe_read_user\<close>, called at line 74 as
  \<open>bpf_probe_read_user(&argp, sizeof(argp), &args[i])\<close> on a destination that line 73 has
  set to \<open>NULL\<close> (section 4.1: "read the next argument pointer from user memory - if
  null or unreadable, stop").  The function gives the value of \<open>argp\<close> after the call: a
  read that faults leaves it null.
\<close>

definition bpf_probe_read_user :: "user_mem \<Rightarrow> u64 \<Rightarrow> u64" where
  "bpf_probe_read_user mem a = (case ptr_at mem a of None \<Rightarrow> 0 | Some p \<Rightarrow> p)"

text \<open>
  Modelled from the spec: the kernel helper \<open>bpf_probe_read_user_str(dst, size, ptr)\<close>, the
  "bounded string-copy primitive that returns either the captured length (success) or a
  failure/non-positive signal" and is "guaranteed to copy at most a caller-specified number
  of bytes ... never overrunning the destination" (section 4.1 and the glossary).  As the
  kernel documents it, the helper copies at most \<open>size - 1\<close> bytes of the string, always
  writes a terminating NUL, and returns the number of bytes written, the NUL included; on a
  fault it returns \<open>-EFAULT\<close> (-14) and clears the destination; with \<open>size = 0\<close> it writes
  nothing and returns 0.  The result is the return code and the bytes written at \<open>dst\<close>.
\<close>

definition bpf_probe_read_user_str :: "user_mem \<Rightarrow> nat \<Rightarrow> u64 \<Rightarrow> int \<times> byte list" where
  "bpf_probe_read_user_str mem sz p =
     (if sz = 0 then (0, [])
      else case str_at mem p of
        None \<Rightarrow> (- 14, replicate sz 0)
      | Some s \<Rightarrow>
          (let c = take (sz - 1) (takeWhile (\<lambda>b. b \<noteq> 0) s) @ [0]
           in (int (length c), c)))"

text \<open>Storing \<open>bs\<close> into the array \<open>buf\<close> from index \<open>off\<close> on.\<close>

definition write_bytes :: "byte list \<Rightarrow> nat \<Rightarrow> byte list \<Rightarrow> byte list" where
  "write_bytes buf off bs = take off buf @ bs @ drop (off + length bs) buf"

text \<open>
  Modelled from the spec: the kernel helper \<open>bpf_get_current_comm(buf, size)\<close>, which
  copies the current task's name (a NUL-terminated string of at most \<open>size - 1\<close>
  characters) into \<open>buf\<close> and pads it with NUL bytes to \<open>size\<close> bytes.  The argument
  \<open>name\<close> is the kernel's \<open>task->comm\<close>.
\<close>

definition bpf_get_current_comm :: "nat \<Rightarrow> byte list \<Rightarrow> byte list" where
  "bpf_get_current_comm sz name =
     (let s = take (sz - 1) (takeWhile (\<lambda>b. b \<noteq> 0) name)
      in s @ replicate (sz - length s) 0)"

text \<open>
  Modelled from the spec: \<open>bpf_probe_read_kernel(dst, size, src)\<close> reading from a map
  value (line 139): the first \<open>size\<close> bytes of \<open>dst\<close> become those of \<open>src\<close>, the rest of
  \<open>dst\<close> stays as it was.
\<close>

definition bpf_probe_read_kernel :: "byte list \<Rightarrow> nat \<Rightarrow> byte list \<Rightarrow> byte list" where
  "bpf_probe_read_kernel dst sz src = write_bytes dst 0 (take sz src)"

subsection \<open>Hash maps\<close>

text \<open>
  A \<open>BPF_MAP_TYPE_HASH\<close> map is an association list with one pair per key
  (\<open>AList.update\<close> and \<open>AList.delete\<close> keep it so).  The lookup
  \<open>bpf_map_lookup_elem\<close> is \<open>map_of\<close>.
\<close>

text \<open>
  Modelled from the spec: the kernel helper \<open>bpf_map_update_elem(map, key, value, BPF_ANY)\<close>
  on a hash map of \<open>max_entries\<close> entries (section 4.2: it "overwrites any existing entry
  for that key (last-writer-wins; no merge)"; "when the table is full, new
  \<open>store_provisional\<close> calls fail silently").  A key that is present is always replaced;
  a new key is refused when the map holds \<open>max_entries\<close> entries.  The probes ignore the
  helper's return code, so only the map is returned.
\<close>

definition bpf_map_update_elem :: "nat \<Rightarrow> ('k \<times> 'v) list \<Rightarrow> 'k \<Rightarrow> 'v \<Rightarrow> ('k \<times> 'v) list" where
  "bpf_map_update_elem max_entries m k v =
     (if map_of m k = None \<and> max_entries \<le> length m then m else AList.update k v m)"

text \<open>
  Modelled from the spec: the kernel helper \<open>bpf_map_delete_elem(map, key)\<close>
  (section 4.2, "\<open>take_provisional\<close> removes ... the entry").
\<close>

definition bpf_map_delete_elem :: "('k \<times> 'v) list \<Rightarrow> 'k \<Rightarrow> ('k \<times> 'v) list" where
  "bpf_map_delete_elem m k = AList.delete k m"

subsection \<open>Ring buffers\<close>

text \<open>
  Modelled from the spec: the kernel's ring buffer \<open>BPF_MAP_TYPE_RINGBUF\<close> with the helpers
  \<open>bpf_ringbuf_reserve\<close>, \<open>bpf_ringbuf_submit\<close> and \<open>bpf_ringbuf_discard\<close> (section 4.3,
  "\<open>reserve(size) -> slot | null\<close>, \<open>submit(slot)\<close>, \<open>discard(slot)\<close>"; "if \<open>reserve\<close>
  fails (buffer full), the event is dropped").  A ring buffer is the number of bytes
  reserved and not yet consumed, the records submitted so far (oldest first) and the number
  of slots discarded.  As in the kernel, a record takes its size plus an 8-byte header,
  rounded up to a multiple of 8, and the producer may not get \<open>max_entries\<close> bytes or more
  ahead of the consumer: such a reservation gives null.
\<close>

record 'a ringbuf =
  rb_used :: nat
  rb_records :: "'a list"
  rb_discarded :: nat

definition BPF_RINGBUF_HDR_SZ :: nat where
  "BPF_RINGBUF_HDR_SZ = 8"

definition bpf_ringbuf_reserve :: "nat \<Rightarrow> 'a ringbuf \<Rightarrow> nat \<Rightarrow> 'a ringbuf option" where
  "bpf_ringbuf_reserve max_entries rb sz =
     (let len = ((sz + BPF_RINGBUF_HDR_SZ + 7) div 8) * 8
      in if max_entries \<le> rb_used rb + len then None
         else Some (rb\<lparr>rb_used := rb_used rb + len\<rparr>))"

definition bpf_ringbuf_submit :: "'a ringbuf \<Rightarrow> 'a \<Rightarrow> 'a ringbuf" where
  "bpf_ringbuf_submit rb e = rb\<lparr>rb_records := rb_records rb @ [e]\<rparr>"

definition bpf_ringbuf_discard :: "'a ringbuf \<Rightarrow> 'a ringbuf" where
  "bpf_ringbuf_discard rb = rb\<lparr>rb_discarded := Suc (rb_discarded rb)\<rparr>"

section \<open>The execve tracer: probes\<close>

text \<open>
  The maps of \<^verbatim>\<open>execsnoop.bpf.c\<close> (lines 19-39): the ring buffer \<open>events\<close> (1 MB), the
  hash map \<open>execs\<close> (10240 entries, keyed by process id), the per-CPU array \<open>heap\<close> with
  one slot per CPU, and the read-only tunable \<open>max_args\<close>.
\<close>

definition events_max_entries :: nat where
  "events_max_entries = 2 ^ 20"

definition execs_max_entries :: nat where
  "execs_max_entries = 10240"

definition heap_max_entries :: nat where
  "heap_max_entries = 1"

record bpf_state =
  heap :: "nat \<Rightarrow> event"
  execs :: "(s32 \<times> event) list"
  events :: "event ringbuf"
  max_args :: int

text \<open>
  Modelled from the spec: \<open>bpf_map_lookup_elem(&heap, &key)\<close> on a
  \<open>BPF_MAP_TYPE_PERCPU_ARRAY\<close>, on the CPU the probe runs on (section 3, "ScratchSlot -
  per-execution-context reusable buffer"): a key below \<open>max_entries\<close> gives the slot of
  that CPU, any other key gives null.
\<close>

definition heap_lookup :: "bpf_state \<Rightarrow> nat \<Rightarrow> u32 \<Rightarrow> event option" where
  "heap_lookup s cpu k = (if unat k < heap_max_entries then Some (heap s cpu) else None)"

text \<open>
  What one invocation of the begin probe reads from its environment: the CPU it runs on,
  the results of \<open>bpf_get_current_uid_gid()\<close> and \<open>bpf_get_current_pid_tgid()\<close>, the value
  \<open>BPF_CORE_READ(task, real_parent, tgid)\<close> yields, the pointer \<open>ctx->args[1]\<close>, and user
  memory.
\<close>

record enter_ctx =
  c_cpu :: nat
  c_uid_gid :: u64
  c_pid_tgid :: u64
  c_parent_tgid :: s32
  c_argv :: u64
  c_mem :: user_mem

text \<open>
  The body of the loop of lines 72-100 for index \<open>i\<close>.  The flag is \<open>False\<close> where the C
  code leaves the loop with \<open>break\<close>.  \<open>remaining_space\<close> is a C \<open>int\<close> computed from the
  unsigned difference; the comparison of line 92 is unsigned.
\<close>

definition scan_body :: "user_mem \<Rightarrow> u64 \<Rightarrow> nat \<Rightarrow> event \<Rightarrow> bool \<times> event" where
  "scan_body mem argv i ev =
     (let argp = bpf_probe_read_user mem (argv + 8 * of_nat i) in
      if argp = 0 then (False, ev)
      else
        let remaining_space = sint ((of_nat FULL_MAX_ARGS_ARR :: u32) - args_size (base ev)) in
        if remaining_space \<le> 0 then (False, ev)
        else
          let read_size = (if remaining_space < int ARGSIZE then remaining_space else int ARGSIZE);
              r = bpf_probe_read_user_str mem (nat read_size) argp;
              ret = fst r;
              ev1 = ev\<lparr>args := write_bytes (args ev) (unat (args_size (base ev))) (snd r)\<rparr>
          in
            if 0 < ret then
              if FULL_MAX_ARGS_ARR < unat (args_size (base ev1) + word_of_int ret) then (False, ev1)
              else (True, ev1\<lparr>base := (base ev1)\<lparr>
                      args_count := args_count (base ev1) + 1,
                      args_size := args_size (base ev1) + word_of_int ret\<rparr>\<rparr>)
            else (False, ev1))"

text \<open>
  The loop \<open>for (i = 0; i < DEFAULT_MAXARGS && i < max_args; i++)\<close>, started at index
  \<open>i\<close>.  The first component of the result is the number of the iteration the loop ended
  in, that is, how many times its body was entered (for a loop started at 0).
\<close>

function scan_args :: "user_mem \<Rightarrow> int \<Rightarrow> u64 \<Rightarrow> nat \<Rightarrow> event \<Rightarrow> nat \<times> event" where
  "scan_args mem ma argv i ev =
     (if i < DEFAULT_MAXARGS \<and> int i < ma then
        (let r = scan_body mem argv i ev
         in if fst r then scan_args mem ma argv (Suc i) (snd r) else (Suc i, snd r))
      else (i, ev))"
  by pat_completeness auto
termination
  by (relation "measure (\<lambda>(mem, ma, argv, i, ev). DEFAULT_MAXARGS - i)") auto

text \<open>\<^verbatim>\<open>tracepoint__syscalls__sys_enter_execve\<close>, lines 42-105.\<close>

definition sys_enter_execve :: "bpf_state \<Rightarrow> enter_ctx \<Rightarrow> bpf_state" where
  "sys_enter_execve s c =
     (let uid' = (ucast (c_uid_gid c) :: u32);
          pid' = (ucast (drop_bit 32 (c_pid_tgid c)) :: s32)
      in case heap_lookup s (c_cpu c) 0 of
        None \<Rightarrow> s
      | Some ev0 \<Rightarrow>
          let ev1 = ev0\<lparr>base := (base ev0)\<lparr>pid := pid', uid := uid', retval := 0,
                                             args_count := 0, args_size := 0\<rparr>\<rparr>;
              ev2 = ev1\<lparr>base := (base ev1)\<lparr>ppid := c_parent_tgid c\<rparr>\<rparr>;
              ev3 = snd (scan_args (c_mem c) (max_args s) (c_argv c) 0 ev2)
          in s\<lparr>heap := (heap s)(c_cpu c := ev3),
               execs := bpf_map_update_elem execs_max_entries (execs s) pid' ev3\<rparr>)"

text \<open>
  What one invocation of the end probe reads from its environment: the result of
  \<open>bpf_get_current_pid_tgid()\<close>, the syscall's return code \<open>ctx->ret\<close> (a C \<open>long\<close>), the
  current task's name, and the bytes that happen to stand in the ring-buffer slot that
  \<open>bpf_ringbuf_reserve\<close> hands out.
\<close>

record exit_ctx =
  x_pid_tgid :: u64
  x_ret :: u64
  x_comm :: "byte list"
  x_slot :: event

text \<open>
  \<^verbatim>\<open>tracepoint__syscalls__sys_exit_execve\<close>, lines 108-146.  The lookup gives a pointer
  into the map, so line 118 writes \<open>retval\<close> into the entry itself.  The comparison of
  line 138 is unsigned.
\<close>

definition sys_exit_execve :: "bpf_state \<Rightarrow> exit_ctx \<Rightarrow> bpf_state" where
  "sys_exit_execve s x =
     (let pid' = (ucast (drop_bit 32 (x_pid_tgid x)) :: s32)
      in case map_of (execs s) pid' of
        None \<Rightarrow> s
      | Some ev0 \<Rightarrow>
          let ev = ev0\<lparr>base := (base ev0)\<lparr>retval := ucast (x_ret x)\<rparr>\<rparr>;
              s1 = s\<lparr>execs := AList.update pid' ev (execs s)\<rparr>
          in case bpf_ringbuf_reserve events_max_entries (events s1) sizeof_event of
            None \<Rightarrow> s1\<lparr>execs := bpf_map_delete_elem (execs s1) pid'\<rparr>
          | Some rb \<Rightarrow>
              let e0 = x_slot x;
                  e1 = e0\<lparr>base := (base e0)\<lparr>pid := pid (base ev), ppid := ppid (base ev),
                                               uid := uid (base ev), retval := retval (base ev),
                                               args_count := args_count (base ev),
                                               args_size := args_size (base ev)\<rparr>\<rparr>;
                  e2 = e1\<lparr>base := (base e1)\<lparr>comm := bpf_get_current_comm TASK_COMM_LEN (x_comm x)\<rparr>\<rparr>;
                  e3 = (if 0 < unat (args_size (base ev)) \<and> unat (args_size (base ev)) \<le> FULL_MAX_ARGS_ARR
                        then e2\<lparr>args := bpf_probe_read_kernel (args e2) (unat (args_size (base ev))) (args ev)\<rparr>
                        else e2)
              in s1\<lparr>events := bpf_ringbuf_submit rb e3,
                    execs := bpf_map_delete_elem (execs s1) pid'\<rparr>)"

text \<open>A run of the tracer is a sequence of probe invocations.\<close>

datatype probe = Enter enter_ctx | Exit exit_ctx

fun probe_pid :: "probe \<Rightarrow> s32" where
  "probe_pid (Enter c) = ucast (drop_bit 32 (c_pid_tgid c))"
| "probe_pid (Exit x) = ucast (drop_bit 32 (x_pid_tgid x))"

fun invoke :: "bpf_state \<Rightarrow> probe \<Rightarrow> bpf_state" where
  "invoke s (Enter c) = sys_enter_execve s c"
| "invoke s (Exit x) = sys_exit_execve s x"

fun run :: "bpf_state \<Rightarrow> probe list \<Rightarrow> bpf_state" where
  "run s [] = s"
| "run s (p # ps) = run (invoke s p) ps"

text \<open>
  The state right after the program is loaded: the maps are empty and zero-filled.
\<close>

definition zero_event :: event where
  "zero_event = \<lparr>base = \<lparr>pid = 0, ppid = 0, uid = 0, retval = 0, args_count = 0, args_size = 0,
                           comm = replicate TASK_COMM_LEN 0\<rparr>,
                  args = replicate FULL_MAX_ARGS_ARR 0\<rparr>"

definition init_state :: "int \<Rightarrow> bpf_state" where
  "init_state ma = \<lparr>heap = (\<lambda>cpu. zero_event), execs = [],
                    events = \<lparr>rb_used = 0, rb_records = [], rb_discarded = 0\<rparr>, max_args = ma\<rparr>"

section \<open>Reading the argument trailer\<close>

text \<open>
  The trailer is a concatenation of NUL-terminated strings.  \<open>encode_args\<close> writes a list
  of strings that way; \<open>decode_args\<close> is the reader's side: it cuts a byte sequence at
  every NUL.
\<close>

definition encode_args :: "byte list list \<Rightarrow> byte list" where
  "encode_args strs = concat (map (\<lambda>s. s @ [0]) strs)"

fun decode_args :: "byte list \<Rightarrow> byte list list" where
  "decode_args [] = []"
| "decode_args (b # bs) =
     (if b = 0 then [] # decode_args bs
      else (case decode_args bs of [] \<Rightarrow> [[b]] | s # ss \<Rightarrow> (b # s) # ss))"

text \<open>
  The bytes of the trailer that count, \<open>args[0 .. args_size)\<close>, and what it means for them
  to be in order: the array has its full size, \<open>args_size\<close> does not exceed it, and the
  counted bytes are exactly \<open>args_count\<close> NUL-terminated strings, one after the other
  from offset 0.
\<close>

definition trailer :: "event \<Rightarrow> byte list" where
  "trailer ev = take (unat (args_size (base ev))) (args ev)"

definition trailer_ok :: "event \<Rightarrow> bool" where
  "trailer_ok ev =
     (length (args ev) = FULL_MAX_ARGS_ARR \<and>
      unat (args_size (base ev)) \<le> FULL_MAX_ARGS_ARR \<and>
      encode_args (decode_args (trailer ev)) = trailer ev \<and>
      length (decode_args (trailer ev)) = unat (args_count (base ev)))"

text \<open>
  Two events carry the same capture when they agree on every header field but the name
  (which the begin probe never writes) and on the counted bytes of the trailer.
\<close>

definition same_capture :: "event \<Rightarrow> event \<Rightarrow> bool" where
  "same_capture ev ev' =
     (pid (base ev) = pid (base ev') \<and> ppid (base ev) = ppid (base ev') \<and>
      uid (base ev) = uid (base ev') \<and> retval (base ev) = retval (base ev') \<and>
      args_count (base ev) = args_count (base ev') \<and>
      args_size (base ev) = args_size (base ev') \<and> trailer ev = trailer ev')"

text \<open>
  An argument vector in user memory: at address \<open>a\<close> stand the non-null pointers of
  \<open>xs\<close>, eight bytes apart, and each points to its string.
\<close>

fun argv_at :: "user_mem \<Rightarrow> u64 \<Rightarrow> (u64 \<times> byte list) list \<Rightarrow> bool" where
  "argv_at mem a [] = True"
| "argv_at mem a (x # xs) =
     (ptr_at mem a = Some (fst x) \<and> fst x \<noteq> 0 \<and> str_at mem (fst x) = Some (snd x) \<and>
      argv_at mem (a + 8) xs)"

section \<open>The process collector\<close>

text \<open>
  \<^verbatim>\<open>struct process_event\<close> (\<^verbatim>\<open>process_collector.bpf.c\<close>, lines 13-22).  The fields
  carry the prefix \<open>pe_\<close>, since \<open>pid\<close>, \<open>ppid\<close>, \<open>uid\<close> and \<open>comm\<close> already name the
  fields of \<open>execsnoop_event\<close>.
\<close>

record process_event =
  pe_pid :: u32
  pe_ppid :: u32
  pe_uid :: u32
  pe_gid :: u32
  pe_comm :: "byte list"
  pe_timestamp :: u64
  pe_exit_code :: u32
  pe_event_type :: byte

text \<open>
  \<open>sizeof(struct process_event)\<close>: 45 bytes of fields, padded to the alignment of the
  8-byte timestamp.
\<close>

definition sizeof_process_event :: nat where
  "sizeof_process_event = 48"

definition process_events_max_entries :: nat where
  "process_events_max_entries = 256 * 1024"

definition process_stats_max_entries :: nat where
  "process_stats_max_entries = 1024"

record collector_state =
  process_events :: "process_event ringbuf"
  process_stats :: "(u32 \<times> u64) list"

text \<open>
  What one invocation of a lifecycle probe reads from its environment.  The CO-RE read
  macros come from libbpf, not from the repository; the values they store are taken as
  given: the task's \<open>pid\<close>, the effect of \<open>BPF_CORE_READ_STR_INTO\<close> on the destination
  array \<open>comm\<close>, the pointers \<open>real_parent\<close> and \<open>real_cred\<close> (0 is \<open>NULL\<close>), the parent's
  \<open>pid\<close>, the credentials' \<open>uid.val\<close> and \<open>gid.val\<close>, the task's \<open>exit_code\<close>, the result of
  \<open>bpf_ktime_get_ns()\<close>, and the bytes that stand in the reserved ring-buffer slot.
\<close>

record task_ctx =
  t_pid :: u32
  t_comm_read :: "byte list \<Rightarrow> byte list"
  t_real_parent :: u64
  t_parent_pid :: u32
  t_real_cred :: u64
  t_cred_uid :: u32
  t_cred_gid :: u32
  t_exit_code :: u32
  t_ktime :: u64
  t_slot :: process_event

text \<open>
  \<^verbatim>\<open>update_process_stats\<close>, lines 31-39.  \<open>__sync_fetch_and_add\<close> adds on a 64-bit
  unsigned counter.
\<close>

definition update_process_stats :: "(u32 \<times> u64) list \<Rightarrow> u32 \<Rightarrow> (u32 \<times> u64) list" where
  "update_process_stats stats p =
     (case map_of stats p of
        Some count \<Rightarrow> AList.update p (count + 1) stats
      | None \<Rightarrow> bpf_map_update_elem process_stats_max_entries stats p 1)"

text \<open>\<^verbatim>\<open>populate_event_common\<close>, lines 42-62: the return code and the event as filled in.\<close>

definition populate_event_common :: "process_event \<Rightarrow> task_ctx \<Rightarrow> int \<times> process_event" where
  "populate_event_common ev t =
     (let ev1 = ev\<lparr>pe_pid := t_pid t\<rparr>;
          ev2 = ev1\<lparr>pe_comm := t_comm_read t (pe_comm ev1)\<rparr>;
          parent = t_real_parent t;
          ev3 = (if parent \<noteq> 0 then ev2\<lparr>pe_ppid := t_parent_pid t\<rparr> else ev2);
          cred = t_real_cred t;
          ev4 = (if cred \<noteq> 0 then ev3\<lparr>pe_uid := t_cred_uid t, pe_gid := t_cred_gid t\<rparr> else ev3);
          ev5 = ev4\<lparr>pe_timestamp := t_ktime t\<rparr>
      in (0, ev5))"

text \<open>\<^verbatim>\<open>trace_process_fork\<close>, lines 66-94.\<close>

definition trace_process_fork :: "collector_state \<Rightarrow> task_ctx \<Rightarrow> collector_state" where
  "trace_process_fork s t =
     (case bpf_ringbuf_reserve process_events_max_entries (process_events s) sizeof_process_event of
        None \<Rightarrow> s
      | Some rb \<Rightarrow>
          let r = populate_event_common (t_slot t) t in
          if fst r < 0 then s\<lparr>process_events := bpf_ringbuf_discard rb\<rparr>
          else
            let ev = (snd r)\<lparr>pe_event_type := 0, pe_exit_code := 0\<rparr>;
                stats = update_process_stats (process_stats s) (pe_pid ev)
            in s\<lparr>process_events := bpf_ringbuf_submit rb ev, process_stats := stats\<rparr>)"

text \<open>\<^verbatim>\<open>trace_process_exec\<close>, lines 98-126.\<close>

definition trace_process_exec :: "collector_state \<Rightarrow> task_ctx \<Rightarrow> collector_state" where
  "trace_process_exec s t =
     (case bpf_ringbuf_reserve process_events_max_entries (process_events s) sizeof_process_event of
        None \<Rightarrow> s
      | Some rb \<Rightarrow>
          let r = populate_event_common (t_slot t) t in
          if fst r < 0 then s\<lparr>process_events := bpf_ringbuf_discard rb\<rparr>
          else
            let ev = (snd r)\<lparr>pe_event_type := 1, pe_exit_code := 0\<rparr>;
                stats = update_process_stats (process_stats s) (pe_pid ev)
            in s\<lparr>process_events := bpf_ringbuf_submit rb ev, process_stats := stats\<rparr>)"

text \<open>\<^verbatim>\<open>trace_process_exit\<close>, lines 130-160.\<close>

definition trace_process_exit :: "collector_state \<Rightarrow> task_ctx \<Rightarrow> collector_state" where
  "trace_process_exit s t =
     (case bpf_ringbuf_reserve process_events_max_entries (process_events s) sizeof_process_event of
        None \<Rightarrow> s
      | Some rb \<Rightarrow>
          let r = populate_event_common (t_slot t) t in
          if fst r < 0 then s\<lparr>process_events := bpf_ringbuf_discard rb\<rparr>
          else
            let ev0 = (snd r)\<lparr>pe_event_type := 2\<rparr>;
                ev = ev0\<lparr>pe_exit_code := t_exit_code t\<rparr>;
                stats = update_process_stats (process_stats s) (pe_pid ev)
            in s\<lparr>process_events := bpf_ringbuf_submit rb ev, process_stats := stats\<rparr>)"

text \<open>
  \<^verbatim>\<open>kprobe_do_fork\<close>, lines 163-179, compiled only under \<open>CORE_SUPPORT_FULL\<close>, with
  \<open>KERNEL_VERSION\<close> of the kernel headers and \<open>LINUX_VERSION_CODE\<close> as a parameter
  (\<^verbatim>\<open>core_helpers.h\<close>, lines 14-16 and 27-29).
\<close>

definition KERNEL_VERSION :: "nat \<Rightarrow> nat \<Rightarrow> nat \<Rightarrow> nat" where
  "KERNEL_VERSION a b c = a * 2 ^ 16 + b * 2 ^ 8 + (if 255 < c then 255 else c)"

definition kernel_version_ge :: "nat \<Rightarrow> nat \<Rightarrow> nat \<Rightarrow> nat \<Rightarrow> bool" where
  "kernel_version_ge version_code major minor patch = (KERNEL_VERSION major minor patch \<le> version_code)"

definition kprobe_do_fork :: "nat \<Rightarrow> collector_state \<Rightarrow> task_ctx \<Rightarrow> collector_state" where
  "kprobe_do_fork version_code s t =
     (if kernel_version_ge version_code 4 18 0
      then s\<lparr>process_stats := update_process_stats (process_stats s) (t_pid t)\<rparr>
      else s)"

text \<open>A run of the collector is a sequence of probe invocations.\<close>

datatype lifecycle_probe = Fork task_ctx | Exec task_ctx | Exit_task task_ctx | Kprobe nat task_ctx

fun collect :: "collector_state \<Rightarrow> lifecycle_probe \<Rightarrow> collector_state" where
  "collect s (Fork t) = trace_process_fork s t"
| "collect s (Exec t) = trace_process_exec s t"
| "collect s (Exit_task t) = trace_process_exit s t"
| "collect s (Kprobe version_code t) = kprobe_do_fork version_code s t"

fun collect_all :: "collector_state \<Rightarrow> lifecycle_probe list \<Rightarrow> collector_state" where
  "collect_all s [] = s"
| "collect_all s (p # ps) = collect_all (collect s p) ps"

section \<open>Records on the wire\<close>

text \<open>
  A record in a ring buffer is the C structure itself.  Its wire image lists the members
  in the order of their declaration, each under its name and with its bytes; integers are
  stored least significant byte first, as on the little-endian BPF target.
  \<^verbatim>\<open>struct execsnoop_event\<close> and \<^verbatim>\<open>struct event\<close> (\<^verbatim>\<open>execsnoop_types.h\<close>, lines
  15-24, \<^verbatim>\<open>execsnoop.bpf.c\<close>, lines 14-17), and \<^verbatim>\<open>struct process_event\<close>
  (\<^verbatim>\<open>process_collector.bpf.c\<close>, lines 13-22).
\<close>

definition le_bytes :: "nat \<Rightarrow> 'a::len word \<Rightarrow> byte list" where
  "le_bytes n w = map (\<lambda>i. ucast (drop_bit (8 * i) w)) [0..<n]"

definition execsnoop_event_fields :: "execsnoop_event \<Rightarrow> (string \<times> byte list) list" where
  "execsnoop_event_fields b =
     [(''pid'', le_bytes 4 (pid b)), (''ppid'', le_bytes 4 (ppid b)), (''uid'', le_bytes 4 (uid b)),
      (''retval'', le_bytes 4 (retval b)), (''args_count'', le_bytes 4 (args_count b)),
      (''args_size'', le_bytes 4 (args_size b)), (''comm'', comm b)]"

definition event_fields :: "event \<Rightarrow> (string \<times> byte list) list" where
  "event_fields e = execsnoop_event_fields (base e) @ [(''args'', args e)]"

definition process_event_fields :: "process_event \<Rightarrow> (string \<times> byte list) list" where
  "process_event_fields ev =
     [(''pid'', le_bytes 4 (pe_pid ev)), (''ppid'', le_bytes 4 (pe_ppid ev)),
      (''uid'', le_bytes 4 (pe_uid ev)), (''gid'', le_bytes 4 (pe_gid ev)),
      (''comm'', pe_comm ev), (''timestamp'', le_bytes 8 (pe_timestamp ev)),
      (''exit_code'', le_bytes 4 (pe_exit_code ev)), (''event_type'', le_bytes 1 (pe_event_type ev))]"

text \<open>The task a lifecycle probe runs on.\<close>

fun probe_task :: "lifecycle_probe \<Rightarrow> task_ctx" where
  "probe_task (Fork t) = t"
| "probe_task (Exec t) = t"
| "probe_task (Exit_task t) = t"
| "probe_task (Kprobe version_code t) = t"

text \<open>
  What holds of every state the execve tracer reaches: the scratch slots are full-size
  arrays, and the pending entries and the submitted records have their trailers in order;
  the records carry a 16-byte name.  Likewise for the collector: every submitted record
  carries one of the three event types and a 16-byte name.
\<close>

definition exec_inv :: "bpf_state \<Rightarrow> bool" where
  "exec_inv s =
     ((\<forall>cpu. length (args (heap s cpu)) = FULL_MAX_ARGS_ARR) \<and>
      (\<forall>k ev. map_of (execs s) k = Some ev \<longrightarrow> trailer_ok ev) \<and>
      (\<forall>e \<in> set (rb_records (events s)). trailer_ok e \<and> length (comm (base e)) = TASK_COMM_LEN))"

definition collector_inv :: "collector_state \<Rightarrow> bool" where
  "collector_inv s =
     (\<forall>ev \<in> set (rb_records (process_events s)).
        unat (pe_event_type ev) \<le> 2 \<and> length (pe_comm ev) = 16)"

section \<open>The scenario of the specification\<close>

text \<open>
  \<open>begin(pid=100, parent=1, uid=0, args=["/bin/ls","-l"])\<close> then
  \<open>end(pid=100, result=0, name="ls")\<close>: the argument vector stands at address 4096, its
  two strings at 8192 and 8200; the strings are given by their ASCII codes.
\<close>

definition scenario_mem :: user_mem where
  "scenario_mem =
     \<lparr>ptr_at = (\<lambda>a. if a = 4096 then Some 8192 else if a = 4104 then Some 8200
                     else if a = 4112 then Some 0 else None),
      str_at = (\<lambda>p. if p = 8192 then Some [47, 98, 105, 110, 47, 108, 115]
                     else if p = 8200 then Some [45, 108] else None)\<rparr>"

definition scenario_begin :: enter_ctx where
  "scenario_begin =
     \<lparr>c_cpu = 0, c_uid_gid = 0, c_pid_tgid = 100 * 2 ^ 32 + 100, c_parent_tgid = 1,
      c_argv = 4096, c_mem = scenario_mem\<rparr>"

definition scenario_end :: exit_ctx where
  "scenario_end =
     \<lparr>x_pid_tgid = 100 * 2 ^ 32 + 100, x_ret = 0, x_comm = [108, 115] @ replicate 14 0,
      x_slot = zero_event\<rparr>"

text \<open>A state whose ring buffer is full and that holds a pending entry for process 100.\<close>

definition scenario_full :: bpf_state where
  "scenario_full =
     \<lparr>heap = (\<lambda>cpu. zero_event), execs = [(100, zero_event)],
      events = \<lparr>rb_used = 2 ^ 20, rb_records = [], rb_discarded = 0\<rparr>, max_args = 20\<rparr>"

text \<open>A task as a lifecycle probe reads it, and the collector right after loading.\<close>

definition scenario_task :: task_ctx where
  "scenario_task =
     \<lparr>t_pid = 100, t_comm_read = (\<lambda>dst. dst), t_real_parent = 4096, t_parent_pid = 1,
      t_real_cred = 8192, t_cred_uid = 0, t_cred_gid = 0, t_exit_code = 0, t_ktime = 1,
      t_slot = \<lparr>pe_pid = 0, pe_ppid = 0, pe_uid = 0, pe_gid = 0, pe_comm = replicate 16 0,
                pe_timestamp = 0, pe_exit_code = 0, pe_event_type = 0\<rparr>\<rparr>"

definition init_collector :: collector_state where
  "init_collector =
     \<lparr>process_events = \<lparr>rb_used = 0, rb_records = [], rb_discarded = 0\<rparr>, process_stats = []\<rparr>"

text \<open>
  A process with process id 100, parent 7 and user 1000 started with 21 one-character
  arguments: every slot of the argument vector at 4096 points to the string \<open>"a"\<close> at
  8192, the 22nd slot holds the null pointer.
\<close>

definition many_args_mem :: user_mem where
  "many_args_mem =
     \<lparr>ptr_at = (\<lambda>a. if a = 4096 + 8 * 21 then Some 0 else Some 8192),
      str_at = (\<lambda>p. if p = 8192 then Some [97] else None)\<rparr>"

definition many_args_begin :: enter_ctx where
  "many_args_begin =
     \<lparr>c_cpu = 0, c_uid_gid = 1000, c_pid_tgid = 100 * 2 ^ 32 + 100, c_parent_tgid = 7,
      c_argv = 4096, c_mem = many_args_mem\<rparr>"

text \<open>The same call made by another process, with process id 200, on the same CPU.\<close>

definition other_begin :: enter_ctx where
  "other_begin = many_args_begin\<lparr>c_pid_tgid := 200 * 2 ^ 32 + 200\<rparr>"

text \<open>
  A collector whose counter table is full: 1024 entries, for the process ids 1000 to
  2023.
\<close>

definition full_stats :: "(u32 \<times> u64) list" where
  "full_stats = map (\<lambda>k. (of_nat k, 1)) [1000..<2024]"

definition full_collector :: collector_state where
  "full_collector =
     \<lparr>process_events = \<lparr>rb_used = 0, rb_records = [], rb_discarded = 0\<rparr>,
      process_stats = full_stats\<rparr>"

section \<open>Auxiliary facts\<close>

subsection \<open>Word arithmetic\<close>

lemma FULL_val: "FULL_MAX_ARGS_ARR = 7680"
  by (simp add: FULL_MAX_ARGS_ARR_def TOTAL_MAX_ARGS_def ARGSIZE_def)

lemma sint_small:
  assumes "unat (w :: u32) < 2 ^ 31"
  shows "sint w = int (unat w)"
proof -
  have "int (unat w) < int (2 ^ 31)"
    using assms by (rule iffD2 [OF of_nat_less_iff])
  then have "uint w < 2 ^ 31"
    by simp
  moreover have "- (2 ^ 31) \<le> uint w"
    by (rule order_trans [of _ 0]) simp_all
  ultimately have "signed_take_bit 31 (uint w) = uint w"
    by (intro signed_take_bit_int_eq_self)
  then show ?thesis
    by (simp add: sint_uint)
qed

lemma remaining_space_val:
  assumes "unat (sz :: u32) \<le> FULL_MAX_ARGS_ARR"
  shows "sint ((of_nat FULL_MAX_ARGS_ARR :: u32) - sz) = int FULL_MAX_ARGS_ARR - int (unat sz)"
proof -
  have le: "sz \<le> (7680 :: u32)"
    using assms by (simp add: FULL_val word_le_nat_alt)
  have u: "unat ((7680 :: u32) - sz) = 7680 - unat sz"
    using unat_sub [OF le] by simp
  have "unat ((7680 :: u32) - sz) < 2 ^ 31"
    by (simp add: u)
  then have "sint ((7680 :: u32) - sz) = int (unat ((7680 :: u32) - sz))"
    by (rule sint_small)
  then show ?thesis
    using assms by (simp add: FULL_val u)
qed

lemma count_add_val:
  assumes "unat (c :: u32) \<le> FULL_MAX_ARGS_ARR"
  shows "unat (c + 1) = unat c + 1"
  using assms by (simp add: unat_word_ariths FULL_val)

subsection \<open>Encoding and decoding the trailer\<close>

lemma encode_args_append: "encode_args (xs @ ys) = encode_args xs @ encode_args ys"
  by (simp add: encode_args_def)

lemma encode_args_Cons: "encode_args (s # ss) = s @ 0 # encode_args ss"
  by (simp add: encode_args_def)

lemma encode_args_Nil: "encode_args [] = []"
  by (simp add: encode_args_def)

lemma length_le_encode_args: "length strs \<le> length (encode_args strs)"
  by (induction strs) (simp_all add: encode_args_Nil encode_args_Cons)

lemma decode_args_nul_free: "s \<in> set (decode_args bs) \<Longrightarrow> 0 \<notin> set s"
proof (induction bs arbitrary: s)
  case Nil
  then show ?case by simp
next
  case (Cons b bs)
  then show ?case
    by (cases "decode_args bs") (auto split: if_splits)
qed

lemma decode_args_string: "0 \<notin> set s \<Longrightarrow> decode_args (s @ 0 # r) = s # decode_args r"
  by (induction s) auto

lemma decode_encode_args: "(\<And>s. s \<in> set strs \<Longrightarrow> 0 \<notin> set s) \<Longrightarrow> decode_args (encode_args strs) = strs"
  by (induction strs) (simp_all add: encode_args_Nil encode_args_Cons decode_args_string)

lemma decode_args_snoc:
  assumes "encode_args (decode_args t) = t" and "0 \<notin> set s"
  shows "decode_args (t @ s @ [0]) = decode_args t @ [s]"
proof -
  have "t @ s @ [0] = encode_args (decode_args t @ [s])"
    using assms(1) by (simp add: encode_args_append encode_args_Cons encode_args_Nil)
  moreover have "decode_args (encode_args (decode_args t @ [s])) = decode_args t @ [s]"
    using assms(2) by (intro decode_encode_args) (auto dest: decode_args_nul_free)
  ultimately show ?thesis by simp
qed

subsection \<open>The string read helper\<close>

lemma read_user_str_length:
  "length (snd (bpf_probe_read_user_str mem sz p)) \<le> sz"
  by (auto simp add: bpf_probe_read_user_str_def Let_def split: option.splits)

lemma read_user_str_pos:
  assumes "0 < fst (bpf_probe_read_user_str mem sz p)"
  obtains s where "snd (bpf_probe_read_user_str mem sz p) = s @ [0]" and "0 \<notin> set s"
    and "fst (bpf_probe_read_user_str mem sz p) = int (length s + 1)"
proof (cases "str_at mem p")
  case None
  with assms show ?thesis by (simp add: bpf_probe_read_user_str_def split: if_splits)
next
  case (Some a)
  let ?s = "take (sz - 1) (takeWhile (\<lambda>b. b \<noteq> 0) a)"
  have "0 \<notin> set ?s"
    by (auto dest: in_set_takeD set_takeWhileD)
  with Some assms that [of ?s] show ?thesis
    by (simp add: bpf_probe_read_user_str_def Let_def split: if_splits)
qed


subsection \<open>Writing into an array\<close>

lemma length_write_bytes:
  "off + length bs \<le> length buf \<Longrightarrow> length (write_bytes buf off bs) = length buf"
  by (simp add: write_bytes_def)

lemma take_write_bytes_same:
  "off \<le> length buf \<Longrightarrow> take off (write_bytes buf off bs) = take off buf"
  by (simp add: write_bytes_def)

lemma take_write_bytes_more:
  "off \<le> length buf \<Longrightarrow> take (off + length bs) (write_bytes buf off bs) = take off buf @ bs"
  by (simp add: write_bytes_def)

subsection \<open>One iteration of the argument loop\<close>

lemma read_user_str_fst:
  "0 < fst (bpf_probe_read_user_str mem sz p) \<Longrightarrow>
   fst (bpf_probe_read_user_str mem sz p) = int (length (snd (bpf_probe_read_user_str mem sz p)))"
  by (erule read_user_str_pos) simp

lemma size_add_nat:
  assumes "unat (sz :: u32) \<le> FULL_MAX_ARGS_ARR" "k \<le> ARGSIZE"
  shows "unat (sz + of_nat k) = unat sz + k"
proof -
  have "unat (of_nat k :: u32) = k"
    using assms(2) by (simp add: unat_of_nat ARGSIZE_def)
  then show ?thesis
    using assms by (simp add: unat_word_ariths FULL_val ARGSIZE_def)
qed

text \<open>
  The loop body in closed form, for a trailer that is not over-full: the C integer
  arithmetic is resolved and the check of line 92 never fires.
\<close>

lemma scan_body_closed:
  assumes sz: "unat (args_size (base ev)) \<le> FULL_MAX_ARGS_ARR"
  shows "scan_body mem argv i ev =
     (let n = unat (args_size (base ev));
          argp = bpf_probe_read_user mem (argv + 8 * of_nat i);
          r = bpf_probe_read_user_str mem (min (FULL_MAX_ARGS_ARR - n) ARGSIZE) argp;
          ev1 = ev\<lparr>args := write_bytes (args ev) n (snd r)\<rparr>
      in if argp = 0 \<or> n = FULL_MAX_ARGS_ARR then (False, ev)
         else if 0 < fst r
         then (True, ev1\<lparr>base := (base ev)\<lparr>args_count := args_count (base ev) + 1,
                 args_size := args_size (base ev) + of_nat (length (snd r))\<rparr>\<rparr>)
         else (False, ev1))"
proof -
  define n where "n = unat (args_size (base ev))"
  define m where "m = FULL_MAX_ARGS_ARR - n"
  define argp where "argp = bpf_probe_read_user mem (argv + 8 * of_nat i)"
  define r where "r = bpf_probe_read_user_str mem (min m ARGSIZE) argp"
  define ev1 where "ev1 = ev\<lparr>args := write_bytes (args ev) n (snd r)\<rparr>"
  have n_le: "n \<le> FULL_MAX_ARGS_ARR"
    using sz by (simp add: n_def)
  have rem: "sint ((of_nat FULL_MAX_ARGS_ARR :: u32) - args_size (base ev)) = int m"
    using remaining_space_val [OF sz] n_le by (simp only: n_def [symmetric] m_def of_nat_diff)
  have rs: "nat (if int m < int ARGSIZE then int m else int ARGSIZE) = min m ARGSIZE"
    by simp
  have body: "scan_body mem argv i ev =
     (if argp = 0 then (False, ev)
      else if int m \<le> 0 then (False, ev)
      else if 0 < fst r then
        if FULL_MAX_ARGS_ARR < unat (args_size (base ev) + word_of_int (fst r)) then (False, ev1)
        else (True, ev1\<lparr>base := (base ev)\<lparr>args_count := args_count (base ev) + 1,
                  args_size := args_size (base ev) + word_of_int (fst r)\<rparr>\<rparr>)
      else (False, ev1))"
    unfolding scan_body_def Let_def rem rs n_def [symmetric] argp_def [symmetric] r_def [symmetric]
      ev1_def
    by simp
  have m0: "(int m \<le> 0) = (n = FULL_MAX_ARGS_ARR)"
    using n_le by (auto simp add: m_def)
  have pos: "0 < fst r \<Longrightarrow>
      word_of_int (fst r) = (of_nat (length (snd r)) :: u32) \<and>
      \<not> FULL_MAX_ARGS_ARR < unat (args_size (base ev) + word_of_int (fst r))"
  proof -
    assume p: "0 < fst r"
    have f: "fst r = int (length (snd r))"
      using p unfolding r_def by (rule read_user_str_fst)
    have l: "length (snd r) \<le> min m ARGSIZE"
      unfolding r_def by (rule read_user_str_length)
    have w: "word_of_int (fst r) = (of_nat (length (snd r)) :: u32)"
      unfolding f by simp
    have u: "unat (args_size (base ev) + of_nat (length (snd r))) = n + length (snd r)"
      unfolding n_def using sz l by (intro size_add_nat) simp_all
    have "n + length (snd r) \<le> FULL_MAX_ARGS_ARR"
      using l n_le unfolding m_def by arith
    then show ?thesis
      unfolding w u by simp
  qed
  have "scan_body mem argv i ev =
     (if argp = 0 \<or> n = FULL_MAX_ARGS_ARR then (False, ev)
      else if 0 < fst r
      then (True, ev1\<lparr>base := (base ev)\<lparr>args_count := args_count (base ev) + 1,
                 args_size := args_size (base ev) + of_nat (length (snd r))\<rparr>\<rparr>)
      else (False, ev1))"
    unfolding body m0 using pos by auto
  then show ?thesis
    unfolding Let_def n_def m_def argp_def r_def ev1_def .
qed


lemma trailer_write_same:
  assumes "length (args ev) = FULL_MAX_ARGS_ARR" "unat (args_size (base ev)) \<le> FULL_MAX_ARGS_ARR"
  shows "trailer (ev\<lparr>args := write_bytes (args ev) (unat (args_size (base ev))) bs\<rparr>) = trailer ev"
  using assms by (simp add: trailer_def take_write_bytes_same)

lemma trailer_write_more:
  assumes "length (args ev) = FULL_MAX_ARGS_ARR" "unat (args_size (base ev)) \<le> FULL_MAX_ARGS_ARR"
      and "unat (args_size (base ev) + of_nat (length bs)) = unat (args_size (base ev)) + length bs"
  shows "trailer (ev\<lparr>args := write_bytes (args ev) (unat (args_size (base ev))) bs,
                     base := (base ev)\<lparr>args_count := c,
                        args_size := args_size (base ev) + of_nat (length bs)\<rparr>\<rparr>)
         = trailer ev @ bs"
  using assms by (simp add: trailer_def take_write_bytes_more)

lemma scan_body_trailer_ok:
  assumes ok: "trailer_ok ev"
  shows "trailer_ok (snd (scan_body mem argv i ev))"
proof -
  define n where "n = unat (args_size (base ev))"
  define argp where "argp = bpf_probe_read_user mem (argv + 8 * of_nat i)"
  define r where "r = bpf_probe_read_user_str mem (min (FULL_MAX_ARGS_ARR - n) ARGSIZE) argp"
  define ev1 where "ev1 = ev\<lparr>args := write_bytes (args ev) n (snd r)\<rparr>"
  define ev2 where "ev2 = ev1\<lparr>base := (base ev)\<lparr>args_count := args_count (base ev) + 1,
                 args_size := args_size (base ev) + of_nat (length (snd r))\<rparr>\<rparr>"
  from ok have len: "length (args ev) = FULL_MAX_ARGS_ARR" and sz: "n \<le> FULL_MAX_ARGS_ARR"
    and enc: "encode_args (decode_args (trailer ev)) = trailer ev"
    and cnt: "length (decode_args (trailer ev)) = unat (args_count (base ev))"
    by (simp_all add: trailer_ok_def n_def)
  have body: "scan_body mem argv i ev =
      (if argp = 0 \<or> n = FULL_MAX_ARGS_ARR then (False, ev)
       else if 0 < fst r then (True, ev2) else (False, ev1))"
    using scan_body_closed [of ev mem argv i] sz
    by (simp add: Let_def n_def argp_def r_def ev1_def ev2_def)
  have l: "length (snd r) \<le> min (FULL_MAX_ARGS_ARR - n) ARGSIZE"
    unfolding r_def by (rule read_user_str_length)
  then have fits: "n + length (snd r) \<le> FULL_MAX_ARGS_ARR"
    using sz by arith
  have len1: "length (args ev1) = FULL_MAX_ARGS_ARR"
    unfolding ev1_def using fits len by (simp add: length_write_bytes)
  have ok1: "trailer_ok ev1"
    using ok trailer_write_same [of ev "snd r"] len1
    by (simp add: trailer_ok_def ev1_def n_def)
  have ok2: "trailer_ok ev2" if p: "0 < fst r"
  proof -
    obtain s where s: "snd r = s @ [0]" "0 \<notin> set s"
      using p unfolding r_def by (rule read_user_str_pos)
    have u: "unat (args_size (base ev) + of_nat (length (snd r))) = n + length (snd r)"
      unfolding n_def using sz l by (intro size_add_nat) (simp_all add: n_def)
    have tr: "trailer ev2 = trailer ev @ snd r"
      unfolding ev2_def ev1_def n_def
      using trailer_write_more [of ev "snd r" "args_count (base ev) + 1"] len sz u
      by (simp add: n_def)
    have dec: "decode_args (trailer ev2) = decode_args (trailer ev) @ [s]"
      unfolding tr s(1) using enc s(2) by (rule decode_args_snoc)
    have "length (decode_args (trailer ev)) \<le> length (trailer ev)"
      using length_le_encode_args [of "decode_args (trailer ev)"] enc by simp
    also have "\<dots> \<le> FULL_MAX_ARGS_ARR"
      using sz by (simp add: trailer_def n_def)
    finally have "unat (args_count (base ev)) \<le> FULL_MAX_ARGS_ARR"
      using cnt by simp
    then have c: "unat (args_count (base ev) + 1) = unat (args_count (base ev)) + 1"
      by (rule count_add_val)
    have e: "encode_args (decode_args (trailer ev2)) = trailer ev2"
      unfolding dec by (simp add: encode_args_append encode_args_Cons encode_args_Nil enc tr s(1))
    have "length (args ev2) = FULL_MAX_ARGS_ARR"
      using len1 by (simp add: ev2_def)
    moreover have "unat (args_size (base ev2)) \<le> FULL_MAX_ARGS_ARR"
      using fits u by (simp add: ev2_def)
    moreover have "length (decode_args (trailer ev2)) = unat (args_count (base ev2))"
      unfolding dec using cnt c by (simp add: ev2_def)
    ultimately show ?thesis
      using e by (simp add: trailer_ok_def)
  qed
  show ?thesis
    unfolding body using ok ok1 ok2 by simp
qed

declare scan_args.simps [simp del]

lemma scan_args_stop:
  "\<not> (i < DEFAULT_MAXARGS \<and> int i < ma) \<Longrightarrow> scan_args mem ma argv i ev = (i, ev)"
  by (subst scan_args.simps) auto

lemma scan_args_break:
  "i < DEFAULT_MAXARGS \<Longrightarrow> int i < ma \<Longrightarrow> \<not> fst (scan_body mem argv i ev) \<Longrightarrow>
   scan_args mem ma argv i ev = (Suc i, snd (scan_body mem argv i ev))"
  by (subst scan_args.simps) (simp add: Let_def)

lemma scan_args_next:
  "i < DEFAULT_MAXARGS \<Longrightarrow> int i < ma \<Longrightarrow> fst (scan_body mem argv i ev) \<Longrightarrow>
   scan_args mem ma argv i ev = scan_args mem ma argv (Suc i) (snd (scan_body mem argv i ev))"
  by (subst scan_args.simps) (simp add: Let_def)

lemma scan_args_trailer_ok:
  "trailer_ok ev \<Longrightarrow> trailer_ok (snd (scan_args mem ma argv i ev))"
proof (induction mem ma argv i ev rule: scan_args.induct)
  case (1 mem ma argv i ev)
  show ?case
  proof (cases "i < DEFAULT_MAXARGS \<and> int i < ma")
    case False
    then show ?thesis
      using "1.prems" by (simp add: scan_args_stop)
  next
    case True
    have b: "trailer_ok (snd (scan_body mem argv i ev))"
      using "1.prems" by (rule scan_body_trailer_ok)
    show ?thesis
    proof (cases "fst (scan_body mem argv i ev)")
      case False
      then show ?thesis
        using True b by (simp add: scan_args_break)
    next
      case f: True
      have "trailer_ok (snd (scan_args mem ma argv (Suc i) (snd (scan_body mem argv i ev))))"
        using True f b by (intro "1.IH") simp_all
      then show ?thesis
        using True f by (simp add: scan_args_next)
    qed
  qed
qed

subsection \<open>Bounds of the argument loop\<close>

lemma scan_body_count_le:
  "unat (args_count (base (snd (scan_body mem argv i ev)))) \<le> unat (args_count (base ev)) + 1"
proof -
  have "unat (args_count (base ev) + 1) \<le> unat (args_count (base ev)) + 1"
    by (simp add: unat_word_ariths) 
  then show ?thesis
    by (simp add: scan_body_def Let_def)
qed

lemma scan_body_count_break:
  "\<not> fst (scan_body mem argv i ev) \<Longrightarrow>
   args_count (base (snd (scan_body mem argv i ev))) = args_count (base ev)"
  by (simp add: scan_body_def Let_def split: if_splits)

text \<open>How often the body runs, and how many strings it counts.\<close>

lemma scan_args_bounds:
  "fst (scan_args mem ma argv i ev) \<le> max i (min DEFAULT_MAXARGS (nat ma)) \<and>
   i \<le> fst (scan_args mem ma argv i ev) \<and>
   unat (args_count (base (snd (scan_args mem ma argv i ev)))) + i
     \<le> unat (args_count (base ev)) + fst (scan_args mem ma argv i ev)"
proof (induction mem ma argv i ev rule: scan_args.induct)
  case (1 mem ma argv i ev)
  show ?case
  proof (cases "i < DEFAULT_MAXARGS \<and> int i < ma")
    case False
    then show ?thesis
      by (simp add: scan_args_stop)
  next
    case True
    show ?thesis
    proof (cases "fst (scan_body mem argv i ev)")
      case False
      then show ?thesis
        using True scan_body_count_break [of mem argv i ev] by (simp add: scan_args_break) linarith
    next
      case f: True
      have "fst (scan_args mem ma argv (Suc i) (snd (scan_body mem argv i ev))) \<le> max (Suc i) (min DEFAULT_MAXARGS (nat ma)) \<and>
   Suc i \<le> fst (scan_args mem ma argv (Suc i) (snd (scan_body mem argv i ev))) \<and>
   unat (args_count (base (snd (scan_args mem ma argv (Suc i) (snd (scan_body mem argv i ev)))))) + Suc i
     \<le> unat (args_count (base (snd (scan_body mem argv i ev)))) + fst (scan_args mem ma argv (Suc i) (snd (scan_body mem argv i ev)))"
        using True f by (intro "1.IH") simp_all
      then show ?thesis
        using True f scan_body_count_le [of mem argv i ev] by (simp add: scan_args_next) linarith
    qed
  qed
qed


lemma scenario_end_pid: "probe_pid (Exit scenario_end) = 100"
  by (simp add: scenario_end_def)

lemma scenario_begin_pid: "probe_pid (Enter scenario_begin) = 100"
  by (simp add: scenario_begin_def)

lemma populate_event_common_ret: "fst (populate_event_common ev t) = 0"
  by (simp add: populate_event_common_def Let_def)

lemma map_of_delete_update:
  "map_of (bpf_map_delete_elem (AList.update k v m) k) = (map_of m)(k := None)"
  by (simp add: bpf_map_delete_elem_def delete_conv' update_conv')

subsection \<open>What the argument loop leaves alone\<close>

lemma scan_body_frame:
  "(base (snd (scan_body mem argv i ev)))\<lparr>args_count := c, args_size := z\<rparr> =
   (base ev)\<lparr>args_count := c, args_size := z\<rparr>"
  by (simp add: scan_body_def Let_def)

lemma scan_args_frame:
  "(base (snd (scan_args mem ma argv i ev)))\<lparr>args_count := c, args_size := z\<rparr> =
   (base ev)\<lparr>args_count := c, args_size := z\<rparr>"
proof (induction mem ma argv i ev rule: scan_args.induct)
  case (1 mem ma argv i ev)
  show ?case
  proof (cases "i < DEFAULT_MAXARGS \<and> int i < ma")
    case False
    then show ?thesis
      by (simp add: scan_args_stop)
  next
    case True
    show ?thesis
    proof (cases "fst (scan_body mem argv i ev)")
      case False
      then show ?thesis
        using True by (simp add: scan_args_break scan_body_frame)
    next
      case f: True
      have "(base (snd (scan_args mem ma argv (Suc i) (snd (scan_body mem argv i ev)))))\<lparr>args_count := c, args_size := z\<rparr> =
            (base (snd (scan_body mem argv i ev)))\<lparr>args_count := c, args_size := z\<rparr>"
        using True f by (intro "1.IH") simp_all
      then show ?thesis
        using True f by (simp add: scan_args_next scan_body_frame)
    qed
  qed
qed

lemma scan_args_fields:
  "pid (base (snd (scan_args mem ma argv i ev))) = pid (base ev)"
  "ppid (base (snd (scan_args mem ma argv i ev))) = ppid (base ev)"
  "uid (base (snd (scan_args mem ma argv i ev))) = uid (base ev)"
  "retval (base (snd (scan_args mem ma argv i ev))) = retval (base ev)"
  "comm (base (snd (scan_args mem ma argv i ev))) = comm (base ev)"
proof -
  have "(base (snd (scan_args mem ma argv i ev)))\<lparr>args_count := 0, args_size := 0\<rparr> =
        (base ev)\<lparr>args_count := 0, args_size := 0\<rparr>"
    by (rule scan_args_frame)
  then have e: "f ((base (snd (scan_args mem ma argv i ev)))\<lparr>args_count := 0, args_size := 0\<rparr>) =
        f ((base ev)\<lparr>args_count := 0, args_size := 0\<rparr>)" for f :: "execsnoop_event \<Rightarrow> 'a"
    by simp
  show "pid (base (snd (scan_args mem ma argv i ev))) = pid (base ev)"
    using e [of pid] by simp
  show "ppid (base (snd (scan_args mem ma argv i ev))) = ppid (base ev)"
    using e [of ppid] by simp
  show "uid (base (snd (scan_args mem ma argv i ev))) = uid (base ev)"
    using e [of uid] by simp
  show "retval (base (snd (scan_args mem ma argv i ev))) = retval (base ev)"
    using e [of retval] by simp
  show "comm (base (snd (scan_args mem ma argv i ev))) = comm (base ev)"
    using e [of comm] by simp
qed

subsection \<open>The begin probe\<close>

lemma heap_lookup_zero: "heap_lookup s cpu 0 = Some (heap s cpu)"
  by (simp add: heap_lookup_def heap_max_entries_def)

lemma enter_event:
  "heap (sys_enter_execve s c) (c_cpu c) =
   snd (scan_args (c_mem c) (max_args s) (c_argv c) 0
     ((heap s (c_cpu c))\<lparr>base := (base (heap s (c_cpu c)))\<lparr>
        pid := probe_pid (Enter c), uid := ucast (c_uid_gid c), retval := 0,
        args_count := 0, args_size := 0, ppid := c_parent_tgid c\<rparr>\<rparr>))"
  by (simp add: sys_enter_execve_def heap_lookup_zero Let_def)

lemma enter_frame:
  "events (sys_enter_execve s c) = events s"
  "max_args (sys_enter_execve s c) = max_args s"
  "cpu \<noteq> c_cpu c \<Longrightarrow> heap (sys_enter_execve s c) cpu = heap s cpu"
  by (simp_all add: sys_enter_execve_def heap_lookup_zero Let_def)

lemma enter_execs:
  "execs (sys_enter_execve s c) =
   bpf_map_update_elem execs_max_entries (execs s) (probe_pid (Enter c))
     (heap (sys_enter_execve s c) (c_cpu c))"
  by (simp add: sys_enter_execve_def heap_lookup_zero Let_def)

lemma map_of_update_elem:
  "map_of (bpf_map_update_elem n m k v) =
   (if map_of m k = None \<and> n \<le> length m then map_of m else (map_of m)(k \<mapsto> v))"
  by (simp add: bpf_map_update_elem_def update_conv')

lemma trailer_ok_init:
  assumes "length (args ev) = FULL_MAX_ARGS_ARR"
  shows "trailer_ok (ev\<lparr>base := b\<lparr>args_count := 0, args_size := 0\<rparr>\<rparr>)"
    and "trailer_ok (ev\<lparr>base := b\<lparr>args_count := 0, args_size := 0, ppid := p\<rparr>\<rparr>)"
  using assms by (simp_all add: trailer_ok_def trailer_def encode_args_Nil)

lemma enter_event_trailer_ok:
  assumes "length (args (heap s (c_cpu c))) = FULL_MAX_ARGS_ARR"
  shows "trailer_ok (heap (sys_enter_execve s c) (c_cpu c))"
  unfolding enter_event using assms by (intro scan_args_trailer_ok trailer_ok_init)

lemma enter_event_fields:
  "pid (base (heap (sys_enter_execve s c) (c_cpu c))) = probe_pid (Enter c)"
  "ppid (base (heap (sys_enter_execve s c) (c_cpu c))) = c_parent_tgid c"
  "uid (base (heap (sys_enter_execve s c) (c_cpu c))) = ucast (c_uid_gid c)"
  "retval (base (heap (sys_enter_execve s c) (c_cpu c))) = 0"
  unfolding enter_event by (simp_all add: scan_args_fields)


subsection \<open>The end probe\<close>

lemma reserve_Some:
  "bpf_ringbuf_reserve n rb sz = Some rb' \<Longrightarrow>
   rb_records rb' = rb_records rb \<and> rb_discarded rb' = rb_discarded rb"
  by (auto simp add: bpf_ringbuf_reserve_def Let_def split: if_splits)

lemma read_kernel_trailer:
  assumes "trailer_ok ev"
  shows "(if 0 < unat (args_size (base ev)) \<and> unat (args_size (base ev)) \<le> FULL_MAX_ARGS_ARR
          then bpf_probe_read_kernel dst (unat (args_size (base ev))) (args ev) else dst)
         = trailer ev @ drop (unat (args_size (base ev))) dst"
  using assms
  by (auto simp add: trailer_ok_def trailer_def bpf_probe_read_kernel_def write_bytes_def)

text \<open>What the end probe does when it finds an entry and gets a slot.\<close>

lemma exit_emits:
  assumes e: "map_of (execs s) (probe_pid (Exit x)) = Some ev"
      and r: "bpf_ringbuf_reserve events_max_entries (events s) sizeof_event = Some rb"
      and ok: "trailer_ok ev"
  shows "rb_records (events (sys_exit_execve s x)) = rb_records (events s) @
           [(x_slot x)\<lparr>base := (base (x_slot x))\<lparr>pid := pid (base ev), ppid := ppid (base ev),
                uid := uid (base ev), retval := ucast (x_ret x),
                args_count := args_count (base ev), args_size := args_size (base ev),
                comm := bpf_get_current_comm TASK_COMM_LEN (x_comm x)\<rparr>,
              args := trailer ev @ drop (unat (args_size (base ev))) (args (x_slot x))\<rparr>]"
    and "map_of (execs (sys_exit_execve s x)) = (map_of (execs s))(probe_pid (Exit x) := None)"
    and "heap (sys_exit_execve s x) = heap s"
    and "max_args (sys_exit_execve s x) = max_args s"
    and "rb_discarded (events (sys_exit_execve s x)) = rb_discarded (events s)"
proof -
  have k: "(if 0 < unat (args_size (base ev)) \<and> unat (args_size (base ev)) \<le> FULL_MAX_ARGS_ARR
          then bpf_probe_read_kernel (args (x_slot x)) (unat (args_size (base ev))) (args ev)
          else args (x_slot x))
         = trailer ev @ drop (unat (args_size (base ev))) (args (x_slot x))"
    using ok by (rule read_kernel_trailer)
  have rr: "rb_records rb = rb_records (events s)" "rb_discarded rb = rb_discarded (events s)"
    using reserve_Some [OF r] by simp_all
  show "rb_records (events (sys_exit_execve s x)) = rb_records (events s) @
           [(x_slot x)\<lparr>base := (base (x_slot x))\<lparr>pid := pid (base ev), ppid := ppid (base ev),
                uid := uid (base ev), retval := ucast (x_ret x),
                args_count := args_count (base ev), args_size := args_size (base ev),
                comm := bpf_get_current_comm TASK_COMM_LEN (x_comm x)\<rparr>,
              args := trailer ev @ drop (unat (args_size (base ev))) (args (x_slot x))\<rparr>]"
    using e r rr k [symmetric]
    by (auto simp add: sys_exit_execve_def Let_def bpf_ringbuf_submit_def)
  show "map_of (execs (sys_exit_execve s x)) = (map_of (execs s))(probe_pid (Exit x) := None)"
    using e r by (simp add: sys_exit_execve_def Let_def map_of_delete_update)
  show "heap (sys_exit_execve s x) = heap s"
    using e r by (simp add: sys_exit_execve_def Let_def)
  show "max_args (sys_exit_execve s x) = max_args s"
    using e r by (simp add: sys_exit_execve_def Let_def)
  show "rb_discarded (events (sys_exit_execve s x)) = rb_discarded (events s)"
    using e r rr by (simp add: sys_exit_execve_def Let_def bpf_ringbuf_submit_def)
qed

text \<open>An invocation for another process id leaves the entry of \<open>p\<close> alone.\<close>

lemma exit_execs_other:
  "probe_pid (Exit x) \<noteq> p \<Longrightarrow> map_of (execs (sys_exit_execve s x)) p = map_of (execs s) p"
  by (auto simp add: sys_exit_execve_def Let_def bpf_map_delete_elem_def delete_conv' update_conv'
      split: option.splits)

lemma enter_execs_other:
  "probe_pid (Enter c) \<noteq> p \<Longrightarrow> map_of (execs (sys_enter_execve s c)) p = map_of (execs s) p"
  unfolding enter_execs by (simp add: map_of_update_elem)

lemma invoke_execs_other:
  "probe_pid pr \<noteq> p \<Longrightarrow> map_of (execs (invoke s pr)) p = map_of (execs s) p"
  by (cases pr) (simp_all add: enter_execs_other exit_execs_other del: probe_pid.simps)

lemma run_execs_other:
  "(\<And>pr. pr \<in> set ps \<Longrightarrow> probe_pid pr \<noteq> p) \<Longrightarrow> map_of (execs (run s ps)) p = map_of (execs s) p"
proof (induction ps arbitrary: s)
  case Nil
  then show ?case by simp
next
  case (Cons a ps)
  have "map_of (execs (run (invoke s a) ps)) p = map_of (execs (invoke s a)) p"
    using Cons.prems by (intro Cons.IH) simp
  also have "\<dots> = map_of (execs s) p"
    using Cons.prems by (intro invoke_execs_other) simp
  finally show ?case by simp
qed


subsection \<open>Truncating the return code\<close>

lemma ucast_down_eq_scast: "(ucast (w :: u64) :: s32) = scast w"
  by (rule bit_word_eqI) (simp add: bit_simps)

lemma sint_ucast_long:
  assumes "- (2 ^ 31) \<le> sint (w :: u64)" "sint w < 2 ^ 31"
  shows "sint (ucast w :: s32) = sint w"
proof -
  have "sint (scast w :: s32) = signed_take_bit 31 (sint w)"
    by (simp add: signed_scast_eq)
  also have "\<dots> = sint w"
    using assms by (rule signed_take_bit_int_eq_self)
  finally show ?thesis
    by (simp add: ucast_down_eq_scast)
qed


subsection \<open>Reading an argument vector\<close>

lemma read_user_str_short:
  assumes "str_at mem p = Some st" "0 \<notin> set st" "length st < ARGSIZE"
  shows "bpf_probe_read_user_str mem ARGSIZE p = (int (length st + 1), st @ [0])"
proof -
  have tw: "takeWhile (\<lambda>b. b \<noteq> 0) st = st"
    using assms(2) by (intro takeWhile_eq_all_conv [THEN iffD2]) auto
  have tk: "take 127 st = st"
    using assms(3) by (simp add: ARGSIZE_def)
  show ?thesis
    by (simp add: bpf_probe_read_user_str_def Let_def assms(1) ARGSIZE_def tw tk)
qed

lemma scan_body_null:
  "bpf_probe_read_user mem (argv + 8 * of_nat i) = 0 \<Longrightarrow> scan_body mem argv i ev = (False, ev)"
  by (simp add: scan_body_def)

lemma scan_body_reads:
  assumes p: "ptr_at mem (argv + 8 * of_nat i) = Some p" "p \<noteq> 0"
      and st: "str_at mem p = Some st" "0 \<notin> set st" "length st < ARGSIZE"
      and ok: "trailer_ok ev"
      and room: "unat (args_size (base ev)) + ARGSIZE \<le> FULL_MAX_ARGS_ARR"
  shows "fst (scan_body mem argv i ev)"
    and "trailer (snd (scan_body mem argv i ev)) = trailer ev @ st @ [0]"
    and "unat (args_size (base (snd (scan_body mem argv i ev)))) = unat (args_size (base ev)) + length st + 1"
proof -
  define n where "n = unat (args_size (base ev))"
  have argp: "bpf_probe_read_user mem (argv + 8 * of_nat i) = p"
    using p(1) by (simp add: bpf_probe_read_user_def)
  have m: "min (FULL_MAX_ARGS_ARR - n) ARGSIZE = ARGSIZE"
    using room unfolding n_def by arith
  have r: "bpf_probe_read_user_str mem (min (FULL_MAX_ARGS_ARR - n) ARGSIZE) p = (int (length st + 1), st @ [0])"
    unfolding m using st by (rule read_user_str_short)
  from ok have len: "length (args ev) = FULL_MAX_ARGS_ARR" and sz: "unat (args_size (base ev)) \<le> FULL_MAX_ARGS_ARR"
    by (simp_all add: trailer_ok_def)
  have nf: "n \<noteq> FULL_MAX_ARGS_ARR"
    using room unfolding n_def by (simp add: ARGSIZE_def)
  have body: "scan_body mem argv i ev =
      (True, ev\<lparr>args := write_bytes (args ev) n (st @ [0]),
                base := (base ev)\<lparr>args_count := args_count (base ev) + 1,
                  args_size := args_size (base ev) + of_nat (length (st @ [0]))\<rparr>\<rparr>)"
    using scan_body_closed [OF sz, of mem argv i] p(2) nf
    by (simp add: Let_def argp n_def [symmetric] r)
  have u: "unat (args_size (base ev) + of_nat (length (st @ [0]))) = unat (args_size (base ev)) + length (st @ [0])"
    using sz st(3) by (intro size_add_nat) simp_all
  show "fst (scan_body mem argv i ev)"
    by (simp add: body)
  show "trailer (snd (scan_body mem argv i ev)) = trailer ev @ st @ [0]"
    unfolding body n_def using trailer_write_more [OF len sz u] by simp
  show "unat (args_size (base (snd (scan_body mem argv i ev)))) = unat (args_size (base ev)) + length st + 1"
    unfolding body using u by simp
qed

lemma scan_args_reads:
  assumes "argv_at mem (argv + 8 * of_nat i) xs"
      and "\<And>x. x \<in> set xs \<Longrightarrow> 0 \<notin> set (snd x) \<and> length (snd x) < ARGSIZE"
      and "i + length xs \<le> DEFAULT_MAXARGS"
      and "int (i + length xs) \<le> ma"
      and "i + length xs < DEFAULT_MAXARGS \<and> int (i + length xs) < ma \<longrightarrow>
             ptr_at mem (argv + 8 * of_nat (i + length xs)) = Some 0"
      and "trailer_ok ev"
      and "unat (args_size (base ev)) \<le> i * ARGSIZE"
  shows "trailer (snd (scan_args mem ma argv i ev)) = trailer ev @ encode_args (map snd xs)"
  using assms
proof (induction xs arbitrary: i ev)
  case Nil
  show ?case
  proof (cases "i < DEFAULT_MAXARGS \<and> int i < ma")
    case False
    then show ?thesis
      by (simp add: scan_args_stop encode_args_Nil)
  next
    case True
    then have "bpf_probe_read_user mem (argv + 8 * of_nat i) = 0"
      using Nil.prems(5) by (simp add: bpf_probe_read_user_def)
    then have "scan_body mem argv i ev = (False, ev)"
      by (rule scan_body_null)
    then show ?thesis
      using True by (simp add: scan_args_break encode_args_Nil)
  qed
next
  case (Cons x xs)
  have i: "i < DEFAULT_MAXARGS" "int i < ma"
    using Cons.prems(3,4) by simp_all
  have x: "ptr_at mem (argv + 8 * of_nat i) = Some (fst x)" "fst x \<noteq> 0"
    "str_at mem (fst x) = Some (snd x)" and rest: "argv_at mem (argv + 8 * of_nat i + 8) xs"
    using Cons.prems(1) by simp_all
  have sx: "0 \<notin> set (snd x)" "length (snd x) < ARGSIZE"
    using Cons.prems(2) [of x] by simp_all
  have room: "unat (args_size (base ev)) + ARGSIZE \<le> FULL_MAX_ARGS_ARR"
  proof -
    have "i * ARGSIZE + ARGSIZE \<le> DEFAULT_MAXARGS * ARGSIZE"
      using i(1) by (simp add: ARGSIZE_def)
    also have "\<dots> \<le> FULL_MAX_ARGS_ARR"
      by (simp add: DEFAULT_MAXARGS_def ARGSIZE_def FULL_val)
    finally show ?thesis
      using Cons.prems(7) by linarith
  qed
  let ?ev = "snd (scan_body mem argv i ev)"
  have b: "fst (scan_body mem argv i ev)" "trailer ?ev = trailer ev @ snd x @ [0]"
    "unat (args_size (base ?ev)) = unat (args_size (base ev)) + length (snd x) + 1"
    using scan_body_reads [OF x sx Cons.prems(6) room] by simp_all
  have addr: "argv + 8 * of_nat i + 8 = argv + 8 * of_nat (Suc i)"
    by simp
  have "trailer (snd (scan_args mem ma argv (Suc i) ?ev)) = trailer ?ev @ encode_args (map snd xs)"
  proof (rule Cons.IH)
    show "argv_at mem (argv + 8 * of_nat (Suc i)) xs"
      using rest unfolding addr .
    show "\<And>x. x \<in> set xs \<Longrightarrow> 0 \<notin> set (snd x) \<and> length (snd x) < ARGSIZE"
      using Cons.prems(2) by simp
    show "Suc i + length xs \<le> DEFAULT_MAXARGS"
      using Cons.prems(3) by simp
    show "int (Suc i + length xs) \<le> ma"
      using Cons.prems(4) by simp
    show "Suc i + length xs < DEFAULT_MAXARGS \<and> int (Suc i + length xs) < ma \<longrightarrow>
             ptr_at mem (argv + 8 * of_nat (Suc i + length xs)) = Some 0"
      using Cons.prems(5) by simp
    show "trailer_ok ?ev"
      using Cons.prems(6) by (rule scan_body_trailer_ok)
    show "unat (args_size (base ?ev)) \<le> Suc i * ARGSIZE"
      using b(3) sx(2) Cons.prems(7) by simp
  qed
  then show ?case
    using i b(1,2) by (simp add: scan_args_next encode_args_Cons)
qed

lemma trailer_ok_count:
  assumes "trailer_ok ev" "trailer ev = encode_args strs" "\<And>s. s \<in> set strs \<Longrightarrow> 0 \<notin> set s"
  shows "unat (args_count (base ev)) = length strs" and "decode_args (trailer ev) = strs"
proof -
  show d: "decode_args (trailer ev) = strs"
    unfolding assms(2) using assms(3) by (rule decode_encode_args)
  show "unat (args_count (base ev)) = length strs"
    using assms(1) d by (simp add: trailer_ok_def)
qed

lemma enter_reads:
  assumes slot: "length (args (heap s (c_cpu c))) = FULL_MAX_ARGS_ARR"
      and argv: "argv_at (c_mem c) (c_argv c) xs"
      and strs: "\<And>x. x \<in> set xs \<Longrightarrow> 0 \<notin> set (snd x) \<and> length (snd x) < ARGSIZE"
      and n1: "length xs \<le> DEFAULT_MAXARGS"
      and n2: "int (length xs) \<le> max_args s"
      and nul: "length xs < DEFAULT_MAXARGS \<and> int (length xs) < max_args s \<longrightarrow>
                  ptr_at (c_mem c) (c_argv c + 8 * of_nat (length xs)) = Some 0"
  shows "trailer (heap (sys_enter_execve s c) (c_cpu c)) = encode_args (map snd xs)"
    and "unat (args_count (base (heap (sys_enter_execve s c) (c_cpu c)))) = length xs"
    and "decode_args (trailer (heap (sys_enter_execve s c) (c_cpu c))) = map snd xs"
proof -
  define ev0 where "ev0 = (heap s (c_cpu c))\<lparr>base := (base (heap s (c_cpu c)))\<lparr>
        pid := probe_pid (Enter c), uid := ucast (c_uid_gid c), retval := 0,
        args_count := 0, args_size := 0, ppid := c_parent_tgid c\<rparr>\<rparr>"
  have e: "heap (sys_enter_execve s c) (c_cpu c) = snd (scan_args (c_mem c) (max_args s) (c_argv c) 0 ev0)"
    unfolding ev0_def by (rule enter_event)
  have ok0: "trailer_ok ev0"
    unfolding ev0_def using slot by (rule trailer_ok_init(2))
  have t0: "trailer ev0 = []" "unat (args_size (base ev0)) \<le> 0 * ARGSIZE"
    by (simp_all add: ev0_def trailer_def)
  have "trailer (snd (scan_args (c_mem c) (max_args s) (c_argv c) 0 ev0)) = trailer ev0 @ encode_args (map snd xs)"
    using argv strs n1 n2 nul ok0 t0(2) by (intro scan_args_reads) simp_all
  then show t: "trailer (heap (sys_enter_execve s c) (c_cpu c)) = encode_args (map snd xs)"
    unfolding e t0 by simp
  have ok: "trailer_ok (heap (sys_enter_execve s c) (c_cpu c))"
    using slot by (rule enter_event_trailer_ok)
  have nf: "\<And>s. s \<in> set (map snd xs) \<Longrightarrow> 0 \<notin> set s"
    using strs by auto
  show "unat (args_count (base (heap (sys_enter_execve s c) (c_cpu c)))) = length xs"
    using trailer_ok_count(1) [OF ok t nf] by simp
  show "decode_args (trailer (heap (sys_enter_execve s c) (c_cpu c))) = map snd xs"
    using ok t nf by (rule trailer_ok_count(2))
qed


subsection \<open>The capture does not depend on what the scratch slot held\<close>

lemma scan_body_same_capture:
  assumes ok: "trailer_ok ev" and ok': "trailer_ok ev'" and sc: "same_capture ev ev'"
  shows "fst (scan_body mem argv i ev) = fst (scan_body mem argv i ev')"
    and "same_capture (snd (scan_body mem argv i ev)) (snd (scan_body mem argv i ev'))"
proof -
  define n where "n = unat (args_size (base ev))"
  define argp where "argp = bpf_probe_read_user mem (argv + 8 * of_nat i)"
  define r where "r = bpf_probe_read_user_str mem (min (FULL_MAX_ARGS_ARR - n) ARGSIZE) argp"
  define upd where "upd = (\<lambda>e :: event. e\<lparr>args := write_bytes (args e) n (snd r)\<rparr>)"
  define adv where "adv = (\<lambda>e :: event. (upd e)\<lparr>base := (base e)\<lparr>args_count := args_count (base e) + 1,
                 args_size := args_size (base e) + of_nat (length (snd r))\<rparr>\<rparr>)"
  from sc have eq: "args_size (base ev') = args_size (base ev)" "args_count (base ev') = args_count (base ev)"
    "pid (base ev') = pid (base ev)" "ppid (base ev') = ppid (base ev)" "uid (base ev') = uid (base ev)"
    "retval (base ev') = retval (base ev)" "trailer ev' = trailer ev"
    by (simp_all add: same_capture_def)
  from ok have len: "length (args ev) = FULL_MAX_ARGS_ARR" and sz: "unat (args_size (base ev)) \<le> FULL_MAX_ARGS_ARR"
    by (simp_all add: trailer_ok_def)
  from ok' have len': "length (args ev') = FULL_MAX_ARGS_ARR" and sz': "unat (args_size (base ev')) \<le> FULL_MAX_ARGS_ARR"
    by (simp_all add: trailer_ok_def)
  have body: "scan_body mem argv i ev =
      (if argp = 0 \<or> n = FULL_MAX_ARGS_ARR then (False, ev)
       else if 0 < fst r then (True, adv ev) else (False, upd ev))"
    using scan_body_closed [OF sz, of mem argv i]
    by (simp add: Let_def n_def argp_def r_def upd_def adv_def)
  have body': "scan_body mem argv i ev' =
      (if argp = 0 \<or> n = FULL_MAX_ARGS_ARR then (False, ev')
       else if 0 < fst r then (True, adv ev') else (False, upd ev'))"
    using scan_body_closed [OF sz', of mem argv i]
    by (simp add: Let_def n_def argp_def r_def upd_def adv_def eq)
  show "fst (scan_body mem argv i ev) = fst (scan_body mem argv i ev')"
    unfolding body body' by simp
  have l: "length (snd r) \<le> min (FULL_MAX_ARGS_ARR - n) ARGSIZE"
    unfolding r_def by (rule read_user_str_length)
  have u: "unat (args_size (base ev) + of_nat (length (snd r))) = unat (args_size (base ev)) + length (snd r)"
    using sz l by (intro size_add_nat) simp_all
  have u': "unat (args_size (base ev') + of_nat (length (snd r))) = unat (args_size (base ev')) + length (snd r)"
    using sz' l by (intro size_add_nat) simp_all
  have t1: "trailer (upd ev) = trailer ev" "trailer (upd ev') = trailer ev'"
    unfolding upd_def n_def using trailer_write_same [OF len sz] trailer_write_same [OF len' sz']
    by (simp_all add: eq)
  have t2: "trailer (adv ev) = trailer ev @ snd r" "trailer (adv ev') = trailer ev' @ snd r"
    unfolding adv_def upd_def n_def
    using trailer_write_more [OF len sz u] trailer_write_more [OF len' sz' u']
    by (simp_all add: eq)
  have "same_capture (upd ev) (upd ev')"
    using sc t1 by (simp add: same_capture_def upd_def)
  moreover have "same_capture (adv ev) (adv ev')"
    using sc t2 by (simp add: same_capture_def adv_def upd_def)
  ultimately show "same_capture (snd (scan_body mem argv i ev)) (snd (scan_body mem argv i ev'))"
    unfolding body body' using sc by simp
qed

lemma scan_args_same_capture:
  "trailer_ok ev \<Longrightarrow> trailer_ok ev' \<Longrightarrow> same_capture ev ev' \<Longrightarrow>
   same_capture (snd (scan_args mem ma argv i ev)) (snd (scan_args mem ma argv i ev'))"
proof (induction mem ma argv i ev arbitrary: ev' rule: scan_args.induct)
  case (1 mem ma argv i ev)
  show ?case
  proof (cases "i < DEFAULT_MAXARGS \<and> int i < ma")
    case False
    then show ?thesis
      using "1.prems" by (simp add: scan_args_stop)
  next
    case True
    have f: "fst (scan_body mem argv i ev) = fst (scan_body mem argv i ev')"
      and b: "same_capture (snd (scan_body mem argv i ev)) (snd (scan_body mem argv i ev'))"
      using "1.prems" by (rule scan_body_same_capture)+
    show ?thesis
    proof (cases "fst (scan_body mem argv i ev)")
      case False
      then show ?thesis
        using True f b by (simp add: scan_args_break)
    next
      case t: True
      have "same_capture (snd (scan_args mem ma argv (Suc i) (snd (scan_body mem argv i ev))))
                         (snd (scan_args mem ma argv (Suc i) (snd (scan_body mem argv i ev'))))"
        using True t b "1.prems" by (intro "1.IH") (simp_all add: scan_body_trailer_ok)
      then show ?thesis
        using True t f by (simp add: scan_args_next)
    qed
  qed
qed

lemma enter_same_capture:
  assumes "length (args (heap s (c_cpu c))) = FULL_MAX_ARGS_ARR"
      and "length (args (heap s' (c_cpu c))) = FULL_MAX_ARGS_ARR"
      and "max_args s' = max_args s"
  shows "same_capture (heap (sys_enter_execve s c) (c_cpu c)) (heap (sys_enter_execve s' c) (c_cpu c))"
  unfolding enter_event assms(3)
  using assms(1,2)
  by (intro scan_args_same_capture trailer_ok_init) (simp_all add: same_capture_def trailer_def)

lemma reserve_init:
  "bpf_ringbuf_reserve events_max_entries \<lparr>rb_used = 0, rb_records = [], rb_discarded = 0\<rparr> sizeof_event
     = Some \<lparr>rb_used = 7728, rb_records = [], rb_discarded = 0\<rparr>"
  by (simp add: bpf_ringbuf_reserve_def events_max_entries_def sizeof_event_def
        BPF_RINGBUF_HDR_SZ_def TASK_COMM_LEN_def FULL_val Let_def)


lemma init_state_simps:
  "heap (init_state ma) cpu = zero_event" "execs (init_state ma) = []"
  "events (init_state ma) = \<lparr>rb_used = 0, rb_records = [], rb_discarded = 0\<rparr>"
  "max_args (init_state ma) = ma" "length (args zero_event) = FULL_MAX_ARGS_ARR"
  by (simp_all add: init_state_def zero_event_def)

lemma many_args_begin_pid: "probe_pid (Enter many_args_begin) = 100"
  by (simp add: many_args_begin_def)

subsection \<open>The counter table\<close>

lemma map_of_update_process_stats:
  "map_of (update_process_stats st p) q =
     (if q = p
      then (case map_of st p of
              Some n \<Rightarrow> Some (n + 1)
            | None \<Rightarrow> if length st < process_stats_max_entries then Some 1 else None)
      else map_of st q)"
  by (auto simp add: update_process_stats_def map_of_update_elem update_conv' split: option.splits)

lemma populate_event_common_pid: "pe_pid (snd (populate_event_common ev t)) = t_pid t"
  by (simp add: populate_event_common_def Let_def)

lemma process_reserve_Some:
  "bpf_ringbuf_reserve process_events_max_entries rb sizeof_process_event = Some rb' \<Longrightarrow>
   rb_records rb' = rb_records rb"
  by (auto simp add: bpf_ringbuf_reserve_def Let_def split: if_splits)

lemma trace_stats_emitted:
  assumes "bpf_ringbuf_reserve process_events_max_entries (process_events s) sizeof_process_event = Some rb"
  shows "process_stats (trace_process_fork s t) = update_process_stats (process_stats s) (t_pid t)"
    and "process_stats (trace_process_exec s t) = update_process_stats (process_stats s) (t_pid t)"
    and "process_stats (trace_process_exit s t) = update_process_stats (process_stats s) (t_pid t)"
  using assms
  by (simp_all add: trace_process_fork_def trace_process_exec_def trace_process_exit_def Let_def
      populate_event_common_ret populate_event_common_pid)

lemma trace_stats_dropped:
  assumes "bpf_ringbuf_reserve process_events_max_entries (process_events s) sizeof_process_event = None"
  shows "trace_process_fork s t = s" "trace_process_exec s t = s" "trace_process_exit s t = s"
  using assms
  by (simp_all add: trace_process_fork_def trace_process_exec_def trace_process_exit_def)

text \<open>One invocation leaves a counter as it is or adds one to it.\<close>

lemma update_process_stats_step:
  assumes "map_of st q = Some n"
  shows "map_of (update_process_stats st p) q = Some n \<or> map_of (update_process_stats st p) q = Some (n + 1)"
  using assms by (cases "q = p") (simp_all add: map_of_update_process_stats)

lemma collect_step:
  assumes "map_of (process_stats s) q = Some n"
  shows "map_of (process_stats (collect s pr)) q = Some n \<or>
         map_of (process_stats (collect s pr)) q = Some (n + 1)"
proof (cases pr)
  case (Fork t)
  show ?thesis
  proof (cases "bpf_ringbuf_reserve process_events_max_entries (process_events s) sizeof_process_event")
    case None
    then show ?thesis using assms Fork by (simp add: trace_stats_dropped)
  next
    case (Some rb)
    then show ?thesis using assms Fork update_process_stats_step [OF assms]
      by (simp add: trace_stats_emitted)
  qed
next
  case (Exec t)
  show ?thesis
  proof (cases "bpf_ringbuf_reserve process_events_max_entries (process_events s) sizeof_process_event")
    case None
    then show ?thesis using assms Exec by (simp add: trace_stats_dropped)
  next
    case (Some rb)
    then show ?thesis using assms Exec update_process_stats_step [OF assms]
      by (simp add: trace_stats_emitted)
  qed
next
  case (Exit_task t)
  show ?thesis
  proof (cases "bpf_ringbuf_reserve process_events_max_entries (process_events s) sizeof_process_event")
    case None
    then show ?thesis using assms Exit_task by (simp add: trace_stats_dropped)
  next
    case (Some rb)
    then show ?thesis using assms Exit_task update_process_stats_step [OF assms]
      by (simp add: trace_stats_emitted)
  qed
next
  case (Kprobe v t)
  then show ?thesis
    using assms update_process_stats_step [OF assms] by (simp add: kprobe_do_fork_def)
qed

lemma collect_all_steps:
  assumes "map_of (process_stats s) q = Some n"
  shows "\<exists>k \<le> length ps. map_of (process_stats (collect_all s ps)) q = Some (n + of_nat k)"
  using assms
proof (induction ps arbitrary: s n)
  case Nil
  then show ?case by simp
next
  case (Cons pr ps)
  from collect_step [OF Cons.prems, of pr]
  consider (same) "map_of (process_stats (collect s pr)) q = Some n"
    | (inc) "map_of (process_stats (collect s pr)) q = Some (n + 1)"
    by blast
  then show ?case
  proof cases
    case same
    from Cons.IH [OF same]
    obtain k where k: "k \<le> length ps"
      "map_of (process_stats (collect_all (collect s pr) ps)) q = Some (n + of_nat k)"
      by blast
    then have "k \<le> length (pr # ps) \<and>
        map_of (process_stats (collect_all s (pr # ps))) q = Some (n + of_nat k)"
      by simp
    then show ?thesis by blast
  next
    case inc
    from Cons.IH [OF inc]
    obtain k where k: "k \<le> length ps"
      "map_of (process_stats (collect_all (collect s pr) ps)) q = Some (n + 1 + of_nat k)"
      by blast
    then have "Suc k \<le> length (pr # ps) \<and>
        map_of (process_stats (collect_all s (pr # ps))) q = Some (n + of_nat (Suc k))"
      by (simp add: add.assoc)
    then show ?thesis by blast
  qed
qed

lemma counter_no_wrap:
  assumes "unat (n :: u64) + k < 2 ^ 64"
  shows "unat (n + of_nat k) = unat n + k"
proof -
  have "k < 2 ^ 64"
    using assms by arith
  then have "unat (of_nat k :: u64) = k"
    by (simp add: unat_of_nat)
  then show ?thesis
    using assms by (simp add: unat_word_ariths)
qed


lemma full_stats_length: "length full_stats = 1024"
  unfolding full_stats_def length_map length_upt by simp

lemma full_stats_100: "map_of full_stats 100 = None"
proof -
  have ne: "(of_nat k :: u32) \<noteq> 100" if "1000 \<le> k" "k < 2024" for k
  proof
    assume "(of_nat k :: u32) = 100"
    then have "unat (of_nat k :: u32) = 100"
      by simp
    then show False
      using that by (simp add: unat_of_nat)
  qed
  have "(100 :: u32) \<notin> fst ` set full_stats"
  proof
    assume "(100 :: u32) \<in> fst ` set full_stats"
    then have "(100 :: u32) \<in> (\<lambda>k. of_nat k) ` {1000..<2024}"
      unfolding full_stats_def set_map image_image fst_conv set_upt .
    then obtain k where "1000 \<le> k" "k < 2024" "(of_nat k :: u32) = 100"
      by auto
    then show False
      using ne by blast
  qed
  then show ?thesis
    by (simp add: map_of_eq_None_iff)
qed

lemma collector_reserve_init:
  "bpf_ringbuf_reserve process_events_max_entries \<lparr>rb_used = 0, rb_records = [], rb_discarded = 0\<rparr>
     sizeof_process_event = Some \<lparr>rb_used = 56, rb_records = [], rb_discarded = 0\<rparr>"
  by (simp add: bpf_ringbuf_reserve_def process_events_max_entries_def
        sizeof_process_event_def BPF_RINGBUF_HDR_SZ_def Let_def)

lemma trace_records:
  assumes "bpf_ringbuf_reserve process_events_max_entries (process_events s) sizeof_process_event = Some rb"
  shows "rb_records (process_events (trace_process_fork s t)) =
           rb_records (process_events s) @
             [(snd (populate_event_common (t_slot t) t))\<lparr>pe_event_type := 0, pe_exit_code := 0\<rparr>]"
    and "rb_records (process_events (trace_process_exec s t)) =
           rb_records (process_events s) @
             [(snd (populate_event_common (t_slot t) t))\<lparr>pe_event_type := 1, pe_exit_code := 0\<rparr>]"
    and "rb_records (process_events (trace_process_exit s t)) =
           rb_records (process_events s) @
             [(snd (populate_event_common (t_slot t) t))\<lparr>pe_event_type := 2,
                pe_exit_code := t_exit_code t\<rparr>]"
  using assms process_reserve_Some [OF assms]
  by (simp_all add: trace_process_fork_def trace_process_exec_def trace_process_exit_def Let_def
      populate_event_common_ret bpf_ringbuf_submit_def)

subsection \<open>What holds of every reachable state\<close>

lemma length_le_bytes: "length (le_bytes n w) = n"
  by (simp add: le_bytes_def)

lemma length_get_current_comm: "0 < n \<Longrightarrow> length (bpf_get_current_comm n name) = n"
  by (simp add: bpf_get_current_comm_def Let_def)

lemma exit_without_entry:
  "map_of (execs s) (probe_pid (Exit x)) = None \<Longrightarrow> sys_exit_execve s x = s"
  by (simp add: sys_exit_execve_def)

lemma exit_reserve_fails:
  assumes "map_of (execs s) (probe_pid (Exit x)) = Some ev"
      and "bpf_ringbuf_reserve events_max_entries (events s) sizeof_event = None"
  shows "events (sys_exit_execve s x) = events s"
    and "map_of (execs (sys_exit_execve s x)) = (map_of (execs s))(probe_pid (Exit x) := None)"
    and "heap (sys_exit_execve s x) = heap s"
  using assms by (simp_all add: sys_exit_execve_def Let_def map_of_delete_update)

lemma exec_inv_init: "exec_inv (init_state ma)"
  by (simp add: exec_inv_def init_state_simps)

lemma exec_inv_enter:
  assumes "exec_inv s"
  shows "exec_inv (sys_enter_execve s c)"
proof -
  have ok: "trailer_ok (heap (sys_enter_execve s c) (c_cpu c))"
    using assms by (intro enter_event_trailer_ok) (simp add: exec_inv_def)
  have h: "length (args (heap (sys_enter_execve s c) cpu)) = FULL_MAX_ARGS_ARR" for cpu
  proof (cases "cpu = c_cpu c")
    case True
    then show ?thesis using ok by (simp add: trailer_ok_def)
  next
    case False
    then show ?thesis using assms by (simp add: enter_frame(3) exec_inv_def)
  qed
  have m: "trailer_ok ev" if "map_of (execs (sys_enter_execve s c)) k = Some ev" for k ev
    using that assms ok unfolding enter_execs
    by (auto simp add: map_of_update_elem exec_inv_def split: if_splits)
  show ?thesis
    unfolding exec_inv_def using h m assms by (simp add: enter_frame(1) exec_inv_def)
qed

lemma emitted_trailer_ok:
  assumes ok: "trailer_ok ev" and slot: "length (args (x_slot x)) = FULL_MAX_ARGS_ARR"
  shows "trailer_ok ((x_slot x)\<lparr>base := b\<lparr>args_count := args_count (base ev), args_size := args_size (base ev),
                comm := cm\<rparr>,
              args := trailer ev @ drop (unat (args_size (base ev))) (args (x_slot x))\<rparr>)"
proof -
  have l: "length (trailer ev) = unat (args_size (base ev))" "unat (args_size (base ev)) \<le> FULL_MAX_ARGS_ARR"
    using ok by (simp_all add: trailer_ok_def trailer_def)
  show ?thesis
    using ok l slot by (simp add: trailer_ok_def trailer_def)
qed

lemma exec_inv_exit:
  assumes inv: "exec_inv s" and slot: "length (args (x_slot x)) = FULL_MAX_ARGS_ARR"
  shows "exec_inv (sys_exit_execve s x)"
proof (cases "map_of (execs s) (probe_pid (Exit x))")
  case None
  then show ?thesis
    using inv by (simp add: exit_without_entry)
next
  case (Some ev)
  then have ok: "trailer_ok ev"
    using inv by (simp add: exec_inv_def)
  show ?thesis
  proof (cases "bpf_ringbuf_reserve events_max_entries (events s) sizeof_event")
    case None
    have "events (sys_exit_execve s x) = events s"
      "map_of (execs (sys_exit_execve s x)) = (map_of (execs s))(probe_pid (Exit x) := None)"
      "heap (sys_exit_execve s x) = heap s"
      using exit_reserve_fails [OF Some None] by simp_all
    then show ?thesis
      using inv by (simp add: exec_inv_def del: probe_pid.simps)
  next
    case r: (Some rb)
    have c: "length (bpf_get_current_comm TASK_COMM_LEN (x_comm x)) = TASK_COMM_LEN"
      by (rule length_get_current_comm) (simp add: TASK_COMM_LEN_def)
    have e: "trailer_ok ((x_slot x)\<lparr>base := (base (x_slot x))\<lparr>pid := pid (base ev), ppid := ppid (base ev),
                uid := uid (base ev), retval := ucast (x_ret x),
                args_count := args_count (base ev), args_size := args_size (base ev),
                comm := bpf_get_current_comm TASK_COMM_LEN (x_comm x)\<rparr>,
              args := trailer ev @ drop (unat (args_size (base ev))) (args (x_slot x))\<rparr>)"
      using ok slot by (rule emitted_trailer_ok)
    show ?thesis
      unfolding exec_inv_def exit_emits [OF Some r ok]
      using inv e c by (simp add: exec_inv_def del: probe_pid.simps)
  qed
qed

lemma exec_inv_run:
  assumes "exec_inv s" and "\<And>x. Exit x \<in> set ps \<Longrightarrow> length (args (x_slot x)) = FULL_MAX_ARGS_ARR"
  shows "exec_inv (run s ps)"
  using assms
proof (induction ps arbitrary: s)
  case Nil
  then show ?case by simp
next
  case (Cons p ps)
  have "exec_inv (invoke s p)"
  proof (cases p)
    case (Enter c)
    then show ?thesis using Cons.prems(1) by (simp add: exec_inv_enter)
  next
    case (Exit x)
    then show ?thesis using Cons.prems by (simp add: exec_inv_exit)
  qed
  then have "exec_inv (run (invoke s p) ps)"
    using Cons.prems(2) by (intro Cons.IH) simp_all
  then show ?case by simp
qed

lemma collector_inv_init: "collector_inv init_collector"
  by (simp add: collector_inv_def init_collector_def)

lemma populate_event_common_comm:
  "pe_comm (snd (populate_event_common ev t)) = t_comm_read t (pe_comm ev)"
  by (simp add: populate_event_common_def Let_def)

lemma collector_inv_collect:
  assumes inv: "collector_inv s"
      and cm: "length (t_comm_read (probe_task pr) (pe_comm (t_slot (probe_task pr)))) = 16"
  shows "collector_inv (collect s pr)"
proof (cases "bpf_ringbuf_reserve process_events_max_entries (process_events s) sizeof_process_event")
  case None
  then show ?thesis
    using inv by (cases pr) (simp_all add: trace_stats_dropped kprobe_do_fork_def collector_inv_def)
next
  case (Some rb)
  have rb: "rb_records rb = rb_records (process_events s)"
    using Some by (rule process_reserve_Some)
  show ?thesis
    using inv cm Some rb
    by (cases pr)
      (simp_all add: collector_inv_def trace_process_fork_def trace_process_exec_def
        trace_process_exit_def kprobe_do_fork_def Let_def populate_event_common_ret
        populate_event_common_comm bpf_ringbuf_submit_def)
qed

lemma collector_inv_collect_all:
  assumes "collector_inv s"
      and "\<And>pr. pr \<in> set ps \<Longrightarrow> length (t_comm_read (probe_task pr) (pe_comm (t_slot (probe_task pr)))) = 16"
  shows "collector_inv (collect_all s ps)"
  using assms
proof (induction ps arbitrary: s)
  case Nil
  then show ?case by simp
next
  case (Cons p ps)
  have "collector_inv (collect s p)"
    using Cons.prems by (intro collector_inv_collect) simp_all
  then have "collector_inv (collect_all (collect s p) ps)"
    using Cons.prems(2) by (intro Cons.IH) simp_all
  then show ?case by simp
qed


subsection \<open>The record of the scenario\<close>

lemma scenario_record:
  obtains e where
    "rb_records (events (run (init_state 20) [Enter scenario_begin, Exit scenario_end])) = [e]"
    "unat (args_size (base e)) = 11" "length (args e) = FULL_MAX_ARGS_ARR"
proof -
  define s1 where "s1 = sys_enter_execve (init_state 20) scenario_begin"
  define ev where "ev = heap s1 (c_cpu scenario_begin)"
  let ?xs = "[(8192 :: u64, [47, 98, 105, 110, 47, 108, 115 :: byte]), (8200, [45, 108])]"
  have slot: "length (args (heap (init_state 20) (c_cpu scenario_begin))) = FULL_MAX_ARGS_ARR"
    by (simp add: init_state_simps)
  have ok: "trailer_ok ev"
    unfolding ev_def s1_def using slot by (rule enter_event_trailer_ok)
  have "trailer ev = encode_args (map snd ?xs)"
    unfolding ev_def s1_def
    by (rule enter_reads(1) [OF slot])
      (auto simp add: scenario_begin_def scenario_mem_def init_state_simps ARGSIZE_def
        DEFAULT_MAXARGS_def)
  then have "length (trailer ev) = 11"
    by (simp add: encode_args_def)
  then have sz: "unat (args_size (base ev)) = 11"
    using ok by (simp add: trailer_ok_def trailer_def)
  have m: "map_of (execs s1) (probe_pid (Exit scenario_end)) = Some ev"
    unfolding s1_def ev_def enter_execs scenario_end_pid scenario_begin_pid
    by (simp add: map_of_update_elem init_state_simps execs_max_entries_def)
  have r: "bpf_ringbuf_reserve events_max_entries (events s1) sizeof_event =
      Some \<lparr>rb_used = 7728, rb_records = [], rb_discarded = 0\<rparr>"
    unfolding s1_def by (simp add: enter_frame init_state_simps reserve_init)
  have recs: "rb_records (events s1) = []"
    unfolding s1_def by (simp add: enter_frame init_state_simps)
  define e where "e = (x_slot scenario_end)\<lparr>base := (base (x_slot scenario_end))\<lparr>pid := pid (base ev),
                ppid := ppid (base ev), uid := uid (base ev), retval := ucast (x_ret scenario_end),
                args_count := args_count (base ev), args_size := args_size (base ev),
                comm := bpf_get_current_comm TASK_COMM_LEN (x_comm scenario_end)\<rparr>,
              args := trailer ev @ drop (unat (args_size (base ev))) (args (x_slot scenario_end))\<rparr>"
  have "rb_records (events (sys_exit_execve s1 scenario_end)) = rb_records (events s1) @ [e]"
    unfolding e_def using m r ok by (rule exit_emits(1))
  then have "rb_records (events (sys_exit_execve s1 scenario_end)) = [e]"
    unfolding recs by simp
  then have a: "rb_records (events (run (init_state 20) [Enter scenario_begin, Exit scenario_end])) = [e]"
    by (simp add: s1_def)
  have b: "unat (args_size (base e)) = 11"
    by (simp add: e_def sz)
  have "length (trailer ev) = 11"
    by fact
  then have c: "length (args e) = FULL_MAX_ARGS_ARR"
    by (simp add: e_def sz scenario_end_def init_state_simps FULL_val)
  show ?thesis
    using a b c by (rule that)
qed

lemma event_fields_names:
  "map fst (event_fields e) =
     [''pid'', ''ppid'', ''uid'', ''retval'', ''args_count'', ''args_size'', ''comm'', ''args'']"
  by (simp add: event_fields_def execsnoop_event_fields_def)

lemma process_event_fields_names:
  "map fst (process_event_fields ev) =
     [''pid'', ''ppid'', ''uid'', ''gid'', ''comm'', ''timestamp'', ''exit_code'', ''event_type'']"
  by (simp add: process_event_fields_def)

section \<open>The claims\<close>

text \<open>
  C1.  Let the begin probe run for process id \<open>p\<close> on a CPU whose scratch slot is the
  full-size array, with a successful insert into the correlation table; let any
  invocations for other process ids follow; then let the end probe run for \<open>p\<close> with a
  successful reservation.  The end probe adds exactly one record to the ring buffer.  Its
  \<open>pid\<close>, \<open>ppid\<close> and \<open>uid\<close> are the values the begin probe read, its \<open>retval\<close>
  is the return code of the end probe (the C conversion of the \<open>long\<close> to \<open>__s32\<close>, which
  keeps every code that fits in 32 bits, as all codes of \<open>execve\<close> do), its \<open>comm\<close> is the
  name read by the end probe, and its argument count and trailer are those the begin probe
  assembled.
\<close>

theorem begin_end_pair_emits_one_event:
  assumes slot: "length (args (heap s (c_cpu c))) = FULL_MAX_ARGS_ARR"
      and same: "probe_pid (Exit x) = probe_pid (Enter c)"
      and ins: "map_of (execs s) (probe_pid (Enter c)) \<noteq> None \<or> length (execs s) < execs_max_entries"
      and others: "\<forall>pr \<in> set ps. probe_pid pr \<noteq> probe_pid (Enter c)"
      and res: "bpf_ringbuf_reserve events_max_entries (events (run (sys_enter_execve s c) ps)) sizeof_event \<noteq> None"
  shows "\<exists>e. rb_records (events (sys_exit_execve (run (sys_enter_execve s c) ps) x)) =
              rb_records (events (run (sys_enter_execve s c) ps)) @ [e] \<and>
            pid (base e) = ucast (drop_bit 32 (c_pid_tgid c)) \<and>
            ppid (base e) = c_parent_tgid c \<and>
            uid (base e) = ucast (c_uid_gid c) \<and>
            retval (base e) = ucast (x_ret x) \<and>
            (- (2 ^ 31) \<le> sint (x_ret x) \<and> sint (x_ret x) < 2 ^ 31 \<longrightarrow> sint (retval (base e)) = sint (x_ret x)) \<and>
            comm (base e) = bpf_get_current_comm TASK_COMM_LEN (x_comm x) \<and>
            args_count (base e) = args_count (base (heap (sys_enter_execve s c) (c_cpu c))) \<and>
            trailer e = trailer (heap (sys_enter_execve s c) (c_cpu c))"
proof -
  define ev where "ev = heap (sys_enter_execve s c) (c_cpu c)"
  define s2 where "s2 = run (sys_enter_execve s c) ps"
  have ok: "trailer_ok ev"
    unfolding ev_def using slot by (rule enter_event_trailer_ok)
  have "map_of (execs (sys_enter_execve s c)) (probe_pid (Enter c)) = Some ev"
    unfolding enter_execs ev_def using ins by (auto simp add: map_of_update_elem)
  moreover have "map_of (execs s2) (probe_pid (Enter c)) = map_of (execs (sys_enter_execve s c)) (probe_pid (Enter c))"
    unfolding s2_def using others by (intro run_execs_other) simp
  ultimately have entry: "map_of (execs s2) (probe_pid (Exit x)) = Some ev"
    by (simp only: same)
  obtain rb where rb: "bpf_ringbuf_reserve events_max_entries (events s2) sizeof_event = Some rb"
    using res unfolding s2_def by auto
  define e where "e = (x_slot x)\<lparr>base := (base (x_slot x))\<lparr>pid := pid (base ev), ppid := ppid (base ev),
                uid := uid (base ev), retval := ucast (x_ret x),
                args_count := args_count (base ev), args_size := args_size (base ev),
                comm := bpf_get_current_comm TASK_COMM_LEN (x_comm x)\<rparr>,
              args := trailer ev @ drop (unat (args_size (base ev))) (args (x_slot x))\<rparr>"
  have recs: "rb_records (events (sys_exit_execve s2 x)) = rb_records (events s2) @ [e]"
    unfolding e_def using entry rb ok by (rule exit_emits(1))
  have "length (trailer ev) = unat (args_size (base ev))"
    using ok by (simp add: trailer_ok_def trailer_def)
  then have tr: "trailer e = trailer ev"
    by (simp add: e_def trailer_def)
  have f: "pid (base e) = ucast (drop_bit 32 (c_pid_tgid c))" "ppid (base e) = c_parent_tgid c"
    "uid (base e) = ucast (c_uid_gid c)"
    using enter_event_fields [of s c] by (simp_all add: e_def ev_def)
  have sg: "- (2 ^ 31) \<le> sint (x_ret x) \<and> sint (x_ret x) < 2 ^ 31 \<longrightarrow> sint (retval (base e)) = sint (x_ret x)"
    by (simp add: e_def sint_ucast_long)
  have "retval (base e) = ucast (x_ret x)" "comm (base e) = bpf_get_current_comm TASK_COMM_LEN (x_comm x)"
    "args_count (base e) = args_count (base ev)"
    by (simp_all add: e_def)
  then show ?thesis
    using recs tr f sg unfolding s2_def ev_def by blast
qed


text \<open>
  The scenario of the specification is an instance, here with a begin probe of process
  200 on the same CPU between the two invocations.
\<close>

theorem begin_end_pair_emits_one_event_witness:
  "\<exists>e. rb_records (events (sys_exit_execve
           (run (sys_enter_execve (init_state 20) scenario_begin) [Enter other_begin])
           scenario_end)) = [e] \<and>
        pid (base e) = 100 \<and> ppid (base e) = 1 \<and> uid (base e) = 0 \<and> retval (base e) = 0 \<and>
        sint (retval (base e)) = 0 \<and>
        comm (base e) = [108, 115, 0, 0, 0, 0, 0, 0, 0, 0, 0, 0, 0, 0, 0, 0]"
proof -
  have slot: "length (args (heap (init_state 20) (c_cpu scenario_begin))) = FULL_MAX_ARGS_ARR"
    by (simp add: init_state_simps)
  have same: "probe_pid (Exit scenario_end) = probe_pid (Enter scenario_begin)"
    by (simp only: scenario_end_pid scenario_begin_pid)
  have ins: "map_of (execs (init_state 20)) (probe_pid (Enter scenario_begin)) \<noteq> None \<or>
             length (execs (init_state 20)) < execs_max_entries"
    by (simp add: init_state_simps execs_max_entries_def)
  have others: "\<forall>pr \<in> set [Enter other_begin]. probe_pid pr \<noteq> probe_pid (Enter scenario_begin)"
    unfolding scenario_begin_pid by (simp add: other_begin_def)
  have ev: "events (run (sys_enter_execve (init_state 20) scenario_begin) [Enter other_begin]) =
            \<lparr>rb_used = 0, rb_records = [], rb_discarded = 0\<rparr>"
    by (simp add: enter_frame init_state_simps)
  have res: "bpf_ringbuf_reserve events_max_entries
      (events (run (sys_enter_execve (init_state 20) scenario_begin) [Enter other_begin]))
      sizeof_event \<noteq> None"
    unfolding ev by (simp add: reserve_init)
  have comm: "bpf_get_current_comm TASK_COMM_LEN (x_comm scenario_end) =
      [108, 115, 0, 0, 0, 0, 0, 0, 0, 0, 0, 0, 0, 0, 0, 0]"
    by code_simp
  have vals: "x_ret scenario_end = 0" "c_parent_tgid scenario_begin = 1"
    "(ucast (c_uid_gid scenario_begin) :: u32) = 0"
    "(ucast (drop_bit 32 (c_pid_tgid scenario_begin)) :: s32) = 100"
    by (simp_all add: scenario_end_def scenario_begin_def)
  show ?thesis
    using begin_end_pair_emits_one_event [OF slot same ins others res]
    unfolding ev comm vals by auto
qed

text \<open>
  C2, as amended.  Let the argument vector hold \<open>n\<close> non-null pointers to readable
  NUL-free strings, each shorter than \<open>ARGSIZE\<close>, followed by a null pointer, with
  \<open>n \<le> max_args\<close> and \<open>n \<le> DEFAULT_MAXARGS\<close>.  Then the event assembled by the begin
  probe has \<open>args_count = n\<close>, its trailer is the \<open>n\<close> strings, each followed by its NUL,
  in their order, and decodes to exactly these strings.
\<close>

theorem argument_reader_captures_short_lists:
  assumes slot: "length (args (heap s (c_cpu c))) = FULL_MAX_ARGS_ARR"
      and argv: "argv_at (c_mem c) (c_argv c) xs"
      and nul: "ptr_at (c_mem c) (c_argv c + 8 * of_nat (length xs)) = Some 0"
      and strs: "\<forall>x \<in> set xs. 0 \<notin> set (snd x) \<and> length (snd x) < ARGSIZE"
      and n1: "int (length xs) \<le> max_args s"
      and n2: "length xs \<le> DEFAULT_MAXARGS"
  shows "sint (args_count (base (heap (sys_enter_execve s c) (c_cpu c)))) = int (length xs) \<and>
         decode_args (trailer (heap (sys_enter_execve s c) (c_cpu c))) = map snd xs \<and>
         trailer (heap (sys_enter_execve s c) (c_cpu c)) = encode_args (map snd xs) \<and>
         unat (args_size (base (heap (sys_enter_execve s c) (c_cpu c)))) = length (encode_args (map snd xs))"
proof -
  let ?ev = "heap (sys_enter_execve s c) (c_cpu c)"
  have strs': "\<And>x. x \<in> set xs \<Longrightarrow> 0 \<notin> set (snd x) \<and> length (snd x) < ARGSIZE"
    using strs by simp
  have nul': "length xs < DEFAULT_MAXARGS \<and> int (length xs) < max_args s \<longrightarrow>
                  ptr_at (c_mem c) (c_argv c + 8 * of_nat (length xs)) = Some 0"
    using nul by simp
  have r: "trailer ?ev = encode_args (map snd xs)" "unat (args_count (base ?ev)) = length xs"
    "decode_args (trailer ?ev) = map snd xs"
    using enter_reads [OF slot argv strs' n2 n1 nul'] by simp_all
  have "unat (args_count (base ?ev)) < 2 ^ 31"
    unfolding r(2) using n2 by (simp add: DEFAULT_MAXARGS_def)
  then have c: "sint (args_count (base ?ev)) = int (length xs)"
    using sint_small [of "args_count (base ?ev)"] r(2) by simp
  have "trailer_ok ?ev"
    using slot by (rule enter_event_trailer_ok)
  then have "length (trailer ?ev) = unat (args_size (base ?ev))"
    by (simp add: trailer_ok_def trailer_def)
  then show ?thesis
    using r c by simp
qed

text \<open>The scenario of the specification: \<open>["/bin/ls", "-l"]\<close> gives \<open>"/bin/ls\0-l\0"\<close>.\<close>

theorem argument_reader_captures_short_lists_witness:
  "sint (args_count (base (heap (sys_enter_execve (init_state 20) scenario_begin) (c_cpu scenario_begin)))) = 2 \<and>
   decode_args (trailer (heap (sys_enter_execve (init_state 20) scenario_begin) (c_cpu scenario_begin))) =
     [[47, 98, 105, 110, 47, 108, 115], [45, 108]] \<and>
   trailer (heap (sys_enter_execve (init_state 20) scenario_begin) (c_cpu scenario_begin)) =
     [47, 98, 105, 110, 47, 108, 115, 0, 45, 108, 0] \<and>
   unat (args_size (base (heap (sys_enter_execve (init_state 20) scenario_begin) (c_cpu scenario_begin)))) = 11"
proof -
  let ?xs = "[(8192 :: u64, [47, 98, 105, 110, 47, 108, 115 :: byte]), (8200, [45, 108])]"
  have slot: "length (args (heap (init_state 20) (c_cpu scenario_begin))) = FULL_MAX_ARGS_ARR"
    by (simp add: init_state_def zero_event_def)
  have argv: "argv_at (c_mem scenario_begin) (c_argv scenario_begin) ?xs"
    by (simp add: scenario_begin_def scenario_mem_def)
  have nul: "ptr_at (c_mem scenario_begin) (c_argv scenario_begin + 8 * of_nat (length ?xs)) = Some 0"
    by (simp add: scenario_begin_def scenario_mem_def)
  have strs: "\<forall>x \<in> set ?xs. 0 \<notin> set (snd x) \<and> length (snd x) < ARGSIZE"
    by (simp add: ARGSIZE_def)
  have n1: "int (length ?xs) \<le> max_args (init_state 20)"
    by (simp add: init_state_def)
  have n2: "length ?xs \<le> DEFAULT_MAXARGS"
    by (simp add: DEFAULT_MAXARGS_def)
  show ?thesis
    using argument_reader_captures_short_lists [OF slot argv nul strs n1 n2]
    by (simp add: encode_args_def)
qed

text \<open>
  C2 as stated fails when the tunable exceeds the static bound of the loop: with
  \<open>max_args = 21\<close> and 21 one-character arguments, all the conditions of the claim hold
  and the probe counts 20 arguments, not 21.
\<close>

theorem argument_reader_stops_at_static_bound:
  "argv_at (c_mem many_args_begin) (c_argv many_args_begin) (replicate 21 (8192, [97])) \<and>
   ptr_at (c_mem many_args_begin) (c_argv many_args_begin + 8 * 21) = Some 0 \<and>
   length [97 :: byte] < ARGSIZE \<and> (0 :: byte) \<notin> set [97] \<and>
   int (length (replicate 21 (8192 :: u64, [97 :: byte]))) \<le> max_args (init_state 21) \<and>
   sint (args_count (base (heap (sys_enter_execve (init_state 21) many_args_begin) (c_cpu many_args_begin)))) = 20"
proof -
  let ?xs = "replicate 20 (8192 :: u64, [97 :: byte])"
  let ?ev = "heap (sys_enter_execve (init_state 21) many_args_begin) (c_cpu many_args_begin)"
  have slot: "length (args (heap (init_state 21) (c_cpu many_args_begin))) = FULL_MAX_ARGS_ARR"
    by (simp add: init_state_def zero_event_def)
  have argv: "argv_at (c_mem many_args_begin) (c_argv many_args_begin) ?xs"
    by code_simp
  have strs: "\<And>x. x \<in> set ?xs \<Longrightarrow> 0 \<notin> set (snd x) \<and> length (snd x) < ARGSIZE"
    by (simp add: ARGSIZE_def)
  have n1: "length ?xs \<le> DEFAULT_MAXARGS"
    by (simp add: DEFAULT_MAXARGS_def)
  have n2: "int (length ?xs) \<le> max_args (init_state 21)"
    by (simp add: init_state_def)
  have nul: "length ?xs < DEFAULT_MAXARGS \<and> int (length ?xs) < max_args (init_state 21) \<longrightarrow>
      ptr_at (c_mem many_args_begin) (c_argv many_args_begin + 8 * of_nat (length ?xs)) = Some 0"
    by (simp add: DEFAULT_MAXARGS_def)
  have "unat (args_count (base ?ev)) = length ?xs"
    using slot argv strs n1 n2 nul by (rule enter_reads(2))
  then have u: "unat (args_count (base ?ev)) = 20"
    by simp
  then have "unat (args_count (base ?ev)) < 2 ^ 31"
    by simp
  then have c: "sint (args_count (base ?ev)) = 20"
    using sint_small [of "args_count (base ?ev)"] u by simp
  have a21: "argv_at (c_mem many_args_begin) (c_argv many_args_begin) (replicate 21 (8192, [97]))"
    by code_simp
  have t: "ptr_at (c_mem many_args_begin) (c_argv many_args_begin + 8 * 21) = Some 0"
    by (simp add: many_args_begin_def many_args_mem_def)
  show ?thesis
    using a21 t c by (simp add: ARGSIZE_def init_state_def)
qed

text \<open>
  C3.  \<open>trailer_ok\<close> is an invariant of the argument loop, for every user memory, every
  argument vector and every value of the tunable: \<open>args_size\<close> never exceeds the capacity
  of the trailer, no write leaves the array, and the counted bytes are exactly
  \<open>args_count\<close> NUL-terminated strings from offset 0 on.  Every iteration of the loop
  body keeps it, the loop started in any state that has it ends in a state that has it,
  and the event assembled by the begin probe has it (spelled out in the last four
  conjuncts).
\<close>

theorem scan_keeps_trailer_in_bounds:
  assumes "trailer_ok ev"
      and "length (args (heap s (c_cpu c))) = FULL_MAX_ARGS_ARR"
  shows "trailer_ok (snd (scan_body mem argv i ev)) \<and>
         trailer_ok (snd (scan_args mem ma argv i ev)) \<and>
         unat (args_size (base (heap (sys_enter_execve s c) (c_cpu c)))) \<le> FULL_MAX_ARGS_ARR \<and>
         length (args (heap (sys_enter_execve s c) (c_cpu c))) = FULL_MAX_ARGS_ARR \<and>
         encode_args (decode_args (trailer (heap (sys_enter_execve s c) (c_cpu c)))) =
           trailer (heap (sys_enter_execve s c) (c_cpu c)) \<and>
         length (decode_args (trailer (heap (sys_enter_execve s c) (c_cpu c)))) =
           unat (args_count (base (heap (sys_enter_execve s c) (c_cpu c))))"
proof -
  have "trailer_ok (heap (sys_enter_execve s c) (c_cpu c))"
    using assms(2) by (rule enter_event_trailer_ok)
  then have "unat (args_size (base (heap (sys_enter_execve s c) (c_cpu c)))) \<le> FULL_MAX_ARGS_ARR \<and>
         length (args (heap (sys_enter_execve s c) (c_cpu c))) = FULL_MAX_ARGS_ARR \<and>
         encode_args (decode_args (trailer (heap (sys_enter_execve s c) (c_cpu c)))) =
           trailer (heap (sys_enter_execve s c) (c_cpu c)) \<and>
         length (decode_args (trailer (heap (sys_enter_execve s c) (c_cpu c)))) =
           unat (args_count (base (heap (sys_enter_execve s c) (c_cpu c))))"
    by (simp add: trailer_ok_def)
  moreover have "trailer_ok (snd (scan_body mem argv i ev))"
    using assms(1) by (rule scan_body_trailer_ok)
  moreover have "trailer_ok (snd (scan_args mem ma argv i ev))"
    using assms(1) by (rule scan_args_trailer_ok)
  ultimately show ?thesis
    by blast
qed

theorem scan_keeps_trailer_in_bounds_witness:
  "trailer_ok zero_event \<and>
   length (args (heap (init_state 20) (c_cpu scenario_begin))) = FULL_MAX_ARGS_ARR \<and>
   trailer_ok (snd (scan_body scenario_mem 4096 0 zero_event)) \<and>
   trailer_ok (snd (scan_args scenario_mem 20 4096 0 zero_event)) \<and>
   unat (args_size (base (heap (sys_enter_execve (init_state 20) scenario_begin)
     (c_cpu scenario_begin)))) \<le> FULL_MAX_ARGS_ARR \<and>
   length (args (heap (sys_enter_execve (init_state 20) scenario_begin) (c_cpu scenario_begin))) =
     FULL_MAX_ARGS_ARR"
proof -
  have a: "trailer_ok zero_event"
    by (simp add: trailer_ok_def trailer_def zero_event_def encode_args_Nil)
  have b: "length (args (heap (init_state 20) (c_cpu scenario_begin))) = FULL_MAX_ARGS_ARR"
    by (simp add: init_state_def zero_event_def)
  show ?thesis
    using scan_keeps_trailer_in_bounds [OF a b, of scenario_mem 4096 0 20] a b by simp
qed

text \<open>
  C4.  An invocation of the end probe for a process id that has no entry in the
  correlation table changes nothing: the state after it (correlation table, ring buffer,
  scratch slots, tunable) is the state before it, so no event is emitted.
\<close>

theorem exit_without_entry_is_noop:
  assumes "map_of (execs s) (probe_pid (Exit x)) = None"
  shows "sys_exit_execve s x = s"
  using assms by (simp add: sys_exit_execve_def)

theorem exit_without_entry_is_noop_witness:
  "map_of (execs (init_state 20)) (probe_pid (Exit scenario_end)) = None \<and>
   sys_exit_execve (init_state 20) scenario_end = init_state 20"
  using exit_without_entry_is_noop [of "init_state 20" scenario_end]
  by (simp add: init_state_def)

text \<open>
  C5.  When the end probe finds the entry of its process id but the ring-buffer
  reservation fails, the invocation returns a state in which the ring buffer is as before
  (no event is emitted), the entry of that process id is gone from the correlation table,
  and every other entry, the scratch slots and the tunable are untouched.
\<close>

theorem exit_reserve_fails_drops_entry:
  assumes "map_of (execs s) (probe_pid (Exit x)) = Some ev0"
      and "bpf_ringbuf_reserve events_max_entries (events s) sizeof_event = None"
  shows "events (sys_exit_execve s x) = events s \<and>
         map_of (execs (sys_exit_execve s x)) (probe_pid (Exit x)) = None \<and>
         map_of (execs (sys_exit_execve s x)) = (map_of (execs s))(probe_pid (Exit x) := None) \<and>
         heap (sys_exit_execve s x) = heap s \<and>
         max_args (sys_exit_execve s x) = max_args s"
  using assms by (simp add: sys_exit_execve_def Let_def map_of_delete_update)

theorem exit_reserve_fails_drops_entry_witness:
  "map_of (execs scenario_full) (probe_pid (Exit scenario_end)) = Some zero_event \<and>
   bpf_ringbuf_reserve events_max_entries (events scenario_full) sizeof_event = None \<and>
   events (sys_exit_execve scenario_full scenario_end) = events scenario_full \<and>
   map_of (execs (sys_exit_execve scenario_full scenario_end)) (probe_pid (Exit scenario_end)) = None"
proof -
  have a: "map_of (execs scenario_full) (probe_pid (Exit scenario_end)) = Some zero_event"
    unfolding scenario_end_pid by (simp add: scenario_full_def)
  have b: "bpf_ringbuf_reserve events_max_entries (events scenario_full) sizeof_event = None"
    by (simp add: bpf_ringbuf_reserve_def scenario_full_def events_max_entries_def sizeof_event_def
        BPF_RINGBUF_HDR_SZ_def TASK_COMM_LEN_def FULL_val Let_def)
  show ?thesis
    using exit_reserve_fails_drops_entry [OF a b] a b by simp
qed

text \<open>
  C6.  Let two begin probes run for the same process id \<open>p\<close>, the first with a
  successful insert, and then the end probe for \<open>p\<close> with a successful reservation.  The
  second begin replaces the pending entry of \<open>p\<close> as a whole by the event it assembled.
  The end probe then emits exactly one record, and this record is the very record that
  the second begin and the end probe emit on a freshly loaded program, where the first
  begin never ran: nothing of the first begin is in it.  The entry of \<open>p\<close> is gone
  afterwards.
\<close>

theorem second_begin_overwrites_first:
  assumes p1: "probe_pid (Enter c1) = probe_pid (Enter c2)"
      and px: "probe_pid (Exit x) = probe_pid (Enter c2)"
      and slot1: "length (args (heap s (c_cpu c1))) = FULL_MAX_ARGS_ARR"
      and slot2: "length (args (heap s (c_cpu c2))) = FULL_MAX_ARGS_ARR"
      and ins: "map_of (execs s) (probe_pid (Enter c1)) \<noteq> None \<or> length (execs s) < execs_max_entries"
      and res: "bpf_ringbuf_reserve events_max_entries (events s) sizeof_event \<noteq> None"
  shows "map_of (execs (sys_enter_execve s c1)) (probe_pid (Enter c2)) =
           Some (heap (sys_enter_execve s c1) (c_cpu c1)) \<and>
         map_of (execs (sys_enter_execve (sys_enter_execve s c1) c2)) (probe_pid (Enter c2)) =
           Some (heap (sys_enter_execve (sys_enter_execve s c1) c2) (c_cpu c2)) \<and>
         (\<exists>e. rb_records (events (sys_exit_execve (sys_enter_execve (sys_enter_execve s c1) c2) x)) =
                rb_records (events s) @ [e] \<and>
              rb_records (events (sys_exit_execve (sys_enter_execve (init_state (max_args s)) c2) x)) = [e] \<and>
              ppid (base e) = c_parent_tgid c2 \<and> uid (base e) = ucast (c_uid_gid c2)) \<and>
         map_of (execs (sys_exit_execve (sys_enter_execve (sys_enter_execve s c1) c2) x))
           (probe_pid (Enter c2)) = None"
proof -
  define p where "p = probe_pid (Enter c2)"
  define s1 where "s1 = sys_enter_execve s c1"
  define s2 where "s2 = sys_enter_execve s1 c2"
  define si where "si = init_state (max_args s)"
  define sj where "sj = sys_enter_execve si c2"
  define ev1 where "ev1 = heap s1 (c_cpu c1)"
  define ev2 where "ev2 = heap s2 (c_cpu c2)"
  define evj where "evj = heap sj (c_cpu c2)"
  have ok1: "trailer_ok ev1"
    unfolding ev1_def s1_def using slot1 by (rule enter_event_trailer_ok)
  have m1: "map_of (execs s1) p = Some ev1"
    unfolding s1_def ev1_def enter_execs p_def p1 [symmetric] using ins
    by (auto simp add: map_of_update_elem)
  have slot2': "length (args (heap s1 (c_cpu c2))) = FULL_MAX_ARGS_ARR"
  proof (cases "c_cpu c2 = c_cpu c1")
    case True
    then show ?thesis
      using ok1 by (simp add: ev1_def trailer_ok_def)
  next
    case False
    then show ?thesis
      unfolding s1_def using slot2 by (simp add: enter_frame(3))
  qed
  have ok2: "trailer_ok ev2"
    unfolding ev2_def s2_def using slot2' by (rule enter_event_trailer_ok)
  have m2: "map_of (execs s2) p = Some ev2"
    unfolding s2_def ev2_def enter_execs p_def [symmetric] using m1
    by (simp add: map_of_update_elem)
  have evs: "events s2 = events s" "max_args s1 = max_args s"
    by (simp_all add: s2_def s1_def enter_frame)
  obtain rb where rb: "bpf_ringbuf_reserve events_max_entries (events s2) sizeof_event = Some rb"
    using res unfolding evs by auto
  have sloti: "length (args (heap si (c_cpu c2))) = FULL_MAX_ARGS_ARR"
    by (simp add: si_def init_state_simps)
  have okj: "trailer_ok evj"
    unfolding evj_def sj_def using sloti by (rule enter_event_trailer_ok)
  have mj: "map_of (execs sj) p = Some evj"
    unfolding sj_def evj_def enter_execs p_def [symmetric]
    by (simp add: map_of_update_elem si_def init_state_simps execs_max_entries_def)
  have evj: "events sj = \<lparr>rb_used = 0, rb_records = [], rb_discarded = 0\<rparr>"
    by (simp add: sj_def si_def enter_frame init_state_simps)
  have rbj: "bpf_ringbuf_reserve events_max_entries (events sj) sizeof_event =
      Some \<lparr>rb_used = 7728, rb_records = [], rb_discarded = 0\<rparr>"
    unfolding evj by (rule reserve_init)
  have "max_args si = max_args s1"
    by (simp add: si_def init_state_simps evs)
  with slot2' sloti have sc: "same_capture ev2 evj"
    unfolding ev2_def evj_def s2_def sj_def by (rule enter_same_capture)
  have px': "probe_pid (Exit x) = p"
    by (simp only: px p_def)
  define e where "e = (x_slot x)\<lparr>base := (base (x_slot x))\<lparr>pid := pid (base ev2), ppid := ppid (base ev2),
                uid := uid (base ev2), retval := ucast (x_ret x),
                args_count := args_count (base ev2), args_size := args_size (base ev2),
                comm := bpf_get_current_comm TASK_COMM_LEN (x_comm x)\<rparr>,
              args := trailer ev2 @ drop (unat (args_size (base ev2))) (args (x_slot x))\<rparr>"
  have r2: "rb_records (events (sys_exit_execve s2 x)) = rb_records (events s2) @ [e]"
    unfolding e_def using m2 rb ok2 unfolding px' [symmetric] by (rule exit_emits(1))
  have "rb_records (events (sys_exit_execve sj x)) = rb_records (events sj) @
          [(x_slot x)\<lparr>base := (base (x_slot x))\<lparr>pid := pid (base evj), ppid := ppid (base evj),
                uid := uid (base evj), retval := ucast (x_ret x),
                args_count := args_count (base evj), args_size := args_size (base evj),
                comm := bpf_get_current_comm TASK_COMM_LEN (x_comm x)\<rparr>,
              args := trailer evj @ drop (unat (args_size (base evj))) (args (x_slot x))\<rparr>]"
    using mj rbj okj unfolding px' [symmetric] by (rule exit_emits(1))
  then have rj: "rb_records (events (sys_exit_execve sj x)) = [e]"
    using sc by (simp add: e_def evj same_capture_def)
  have "map_of (execs (sys_exit_execve s2 x)) = (map_of (execs s2))(p := None)"
    using exit_emits(2) [OF m2 [unfolded px' [symmetric]] rb ok2] unfolding px' .
  then have gone: "map_of (execs (sys_exit_execve s2 x)) p = None"
    by simp
  have f: "ppid (base e) = c_parent_tgid c2" "uid (base e) = ucast (c_uid_gid c2)"
    using enter_event_fields [of s1 c2] by (simp_all add: e_def ev2_def s2_def)
  show ?thesis
    using m1 m2 r2 [unfolded evs(1)] rj gone f
    unfolding p_def s1_def s2_def si_def sj_def ev1_def ev2_def by blast
qed


text \<open>
  An instance: a first begin with 21 arguments, then the begin and the end of the
  scenario of the specification.
\<close>

theorem second_begin_overwrites_first_witness:
  "probe_pid (Enter many_args_begin) = probe_pid (Enter scenario_begin) \<and>
   probe_pid (Exit scenario_end) = probe_pid (Enter scenario_begin) \<and>
   (\<exists>e. rb_records (events (sys_exit_execve
            (sys_enter_execve (sys_enter_execve (init_state 20) many_args_begin) scenario_begin)
            scenario_end)) = [e] \<and>
        rb_records (events (sys_exit_execve (sys_enter_execve (init_state 20) scenario_begin)
            scenario_end)) = [e] \<and>
        ppid (base e) = 1 \<and> uid (base e) = 0) \<and>
   map_of (execs (sys_exit_execve
            (sys_enter_execve (sys_enter_execve (init_state 20) many_args_begin) scenario_begin)
            scenario_end)) 100 = None"
proof -
  have p1: "probe_pid (Enter many_args_begin) = probe_pid (Enter scenario_begin)"
    by (simp only: many_args_begin_pid scenario_begin_pid)
  have px: "probe_pid (Exit scenario_end) = probe_pid (Enter scenario_begin)"
    by (simp only: scenario_end_pid scenario_begin_pid)
  have slot1: "length (args (heap (init_state 20) (c_cpu many_args_begin))) = FULL_MAX_ARGS_ARR"
    by (simp add: init_state_simps)
  have slot2: "length (args (heap (init_state 20) (c_cpu scenario_begin))) = FULL_MAX_ARGS_ARR"
    by (simp add: init_state_simps)
  have ins: "map_of (execs (init_state 20)) (probe_pid (Enter many_args_begin)) \<noteq> None \<or>
             length (execs (init_state 20)) < execs_max_entries"
    by (simp add: init_state_simps execs_max_entries_def)
  have res: "bpf_ringbuf_reserve events_max_entries (events (init_state 20)) sizeof_event \<noteq> None"
    by (simp add: init_state_simps reserve_init)
  have vals: "c_parent_tgid scenario_begin = 1" "(ucast (c_uid_gid scenario_begin) :: u32) = 0"
    "max_args (init_state 20) = 20" "rb_records (events (init_state 20)) = []"
    by (simp_all add: scenario_begin_def init_state_simps)
  show ?thesis
    using second_begin_overwrites_first [OF p1 px slot1 slot2 ins res] p1 px
    unfolding vals scenario_begin_pid by simp
qed

text \<open>
  C7.  For every user memory, argument vector, starting event and value of the tunable,
  the loop body is entered at most \<open>DEFAULT_MAXARGS\<close> times and at most \<open>max_args\<close>
  times (not at all when the tunable is zero or negative), and the begin probe counts at
  most that many strings.
\<close>

theorem scan_loop_is_bounded:
  "fst (scan_args mem ma argv 0 ev) \<le> DEFAULT_MAXARGS \<and>
   int (fst (scan_args mem ma argv 0 ev)) \<le> max 0 ma \<and>
   unat (args_count (base (heap (sys_enter_execve s c) (c_cpu c)))) \<le> DEFAULT_MAXARGS \<and>
   int (unat (args_count (base (heap (sys_enter_execve s c) (c_cpu c))))) \<le> max 0 (max_args s)"
proof -
  have b: "fst (scan_args mem ma argv 0 ev) \<le> DEFAULT_MAXARGS \<and>
           int (fst (scan_args mem ma argv 0 ev)) \<le> max 0 ma \<and>
           unat (args_count (base (snd (scan_args mem ma argv 0 ev))))
             \<le> unat (args_count (base ev)) + fst (scan_args mem ma argv 0 ev)"
    for mem ma argv ev
    using scan_args_bounds [of mem ma argv 0 ev] by auto
  define ev0 where "ev0 = (heap s (c_cpu c))\<lparr>base := (base (heap s (c_cpu c)))\<lparr>
        pid := probe_pid (Enter c), uid := ucast (c_uid_gid c), retval := 0,
        args_count := 0, args_size := 0, ppid := c_parent_tgid c\<rparr>\<rparr>"
  have z: "unat (args_count (base ev0)) = 0"
    by (simp add: ev0_def)
  have e: "heap (sys_enter_execve s c) (c_cpu c) = snd (scan_args (c_mem c) (max_args s) (c_argv c) 0 ev0)"
    unfolding ev0_def by (rule enter_event)
  show ?thesis
    using b [of mem ma argv ev] b [of "c_mem c" "max_args s" "c_argv c" ev0]
    unfolding e z by linarith
qed

text \<open>
  C8, as amended.  The two ring buffers carry two different records.  Every record the
  execve tracer delivers (on a program run from its loaded state, each slot handed out by
  the ring buffer being a full \<open>struct event\<close>) consists of the header \<open>pid\<close>, \<open>ppid\<close>,
  \<open>uid\<close>, \<open>retval\<close>, \<open>args_count\<close>, \<open>args_size\<close> (4 bytes each) and the 16-byte \<open>comm\<close>,
  immediately followed by the 7680-byte argument array, whose first \<open>args_size\<close> bytes are
  exactly \<open>args_count\<close> concatenated NUL-terminated strings.  Every record the collector
  delivers consists of \<open>pid\<close>, \<open>ppid\<close>, \<open>uid\<close>, \<open>gid\<close> (4 bytes each), the 16-byte \<open>comm\<close>
  (as long as the name read leaves the array 16 bytes long), the 8-byte \<open>timestamp\<close>, the
  4-byte \<open>exit_code\<close> and the 1-byte \<open>event_type\<close>, which is 0, 1 or 2; it has no
  argument fields and no trailer.
\<close>

theorem delivered_records_wire_format:
  assumes slots: "\<forall>x. Exit x \<in> set ps \<longrightarrow> length (args (x_slot x)) = FULL_MAX_ARGS_ARR"
      and e: "e \<in> set (rb_records (events (run (init_state ma) ps)))"
      and comms: "\<forall>pr \<in> set qs. length (t_comm_read (probe_task pr) (pe_comm (t_slot (probe_task pr)))) = 16"
      and ev: "ev \<in> set (rb_records (process_events (collect_all init_collector qs)))"
  shows "map fst (event_fields e) =
           [''pid'', ''ppid'', ''uid'', ''retval'', ''args_count'', ''args_size'', ''comm'', ''args''] \<and>
         map (length \<circ> snd) (event_fields e) = [4, 4, 4, 4, 4, 4, 16, 7680] \<and>
         trailer_ok e \<and>
         map fst (process_event_fields ev) =
           [''pid'', ''ppid'', ''uid'', ''gid'', ''comm'', ''timestamp'', ''exit_code'', ''event_type''] \<and>
         map (length \<circ> snd) (process_event_fields ev) = [4, 4, 4, 4, 16, 8, 4, 1] \<and>
         unat (pe_event_type ev) \<le> 2"
proof -
  have "exec_inv (run (init_state ma) ps)"
    using slots by (intro exec_inv_run exec_inv_init) simp
  then have a: "trailer_ok e" "length (comm (base e)) = 16"
    using e by (simp_all add: exec_inv_def TASK_COMM_LEN_def)
  then have "length (args e) = 7680"
    by (simp add: trailer_ok_def FULL_val)
  then have b: "map (length \<circ> snd) (event_fields e) = [4, 4, 4, 4, 4, 4, 16, 7680]"
    using a(2) by (simp add: event_fields_def execsnoop_event_fields_def length_le_bytes)
  have "collector_inv (collect_all init_collector qs)"
    using comms by (intro collector_inv_collect_all collector_inv_init) simp
  then have c: "unat (pe_event_type ev) \<le> 2" "length (pe_comm ev) = 16"
    using ev by (simp_all add: collector_inv_def)
  then have d: "map (length \<circ> snd) (process_event_fields ev) = [4, 4, 4, 4, 16, 8, 4, 1]"
    by (simp add: process_event_fields_def length_le_bytes)
  show ?thesis
    using a(1) b c(1) d by (simp add: event_fields_names process_event_fields_names)
qed

theorem delivered_records_wire_format_witness:
  "length (rb_records (events (run (init_state 20) [Enter scenario_begin, Exit scenario_end]))) = 1 \<and>
   length (rb_records (process_events (collect_all init_collector [Fork scenario_task]))) = 1 \<and>
   map (length \<circ> snd) (event_fields
     (last (rb_records (events (run (init_state 20) [Enter scenario_begin, Exit scenario_end])))))
     = [4, 4, 4, 4, 4, 4, 16, 7680] \<and>
   trailer_ok (last (rb_records (events (run (init_state 20) [Enter scenario_begin, Exit scenario_end])))) \<and>
   map (length \<circ> snd) (process_event_fields
     (last (rb_records (process_events (collect_all init_collector [Fork scenario_task])))))
     = [4, 4, 4, 4, 16, 8, 4, 1] \<and>
   unat (pe_event_type (last (rb_records (process_events (collect_all init_collector [Fork scenario_task]))))) \<le> 2"
proof -
  obtain e where e: "rb_records (events (run (init_state 20) [Enter scenario_begin, Exit scenario_end])) = [e]"
    by (rule scenario_record)
  have res: "bpf_ringbuf_reserve process_events_max_entries (process_events init_collector)
      sizeof_process_event = Some \<lparr>rb_used = 56, rb_records = [], rb_discarded = 0\<rparr>"
    by (simp add: init_collector_def collector_reserve_init)
  have f: "rb_records (process_events (collect_all init_collector [Fork scenario_task])) =
      [(snd (populate_event_common (t_slot scenario_task) scenario_task))\<lparr>pe_event_type := 0, pe_exit_code := 0\<rparr>]"
    using trace_records(1) [OF res, of scenario_task] by (simp add: init_collector_def)
  have slots: "\<forall>x. Exit x \<in> set [Enter scenario_begin, Exit scenario_end] \<longrightarrow>
      length (args (x_slot x)) = FULL_MAX_ARGS_ARR"
    by (simp add: scenario_end_def init_state_simps)
  have comms: "\<forall>pr \<in> set [Fork scenario_task].
      length (t_comm_read (probe_task pr) (pe_comm (t_slot (probe_task pr)))) = 16"
    by (simp add: scenario_task_def)
  have m1: "last (rb_records (events (run (init_state 20) [Enter scenario_begin, Exit scenario_end])))
      \<in> set (rb_records (events (run (init_state 20) [Enter scenario_begin, Exit scenario_end])))"
    unfolding e by simp
  have m2: "last (rb_records (process_events (collect_all init_collector [Fork scenario_task])))
      \<in> set (rb_records (process_events (collect_all init_collector [Fork scenario_task])))"
    unfolding f by simp
  have l: "length (rb_records (events (run (init_state 20) [Enter scenario_begin, Exit scenario_end]))) = 1"
    "length (rb_records (process_events (collect_all init_collector [Fork scenario_task]))) = 1"
    unfolding e f by simp_all
  show ?thesis
    using delivered_records_wire_format [OF slots m1 comms m2] l by simp
qed

text \<open>
  C8 as stated fails on the record the scenario of the specification delivers: its header
  has no group id, no timestamp and no event kind, and the header is followed by 7680
  bytes, not by the 11 bytes that \<open>args_size\<close> gives.
\<close>

theorem execve_record_is_not_the_claimed_format:
  "length (rb_records (events (run (init_state 20) [Enter scenario_begin, Exit scenario_end]))) = 1 \<and>
   map fst (event_fields
     (last (rb_records (events (run (init_state 20) [Enter scenario_begin, Exit scenario_end])))))
     = [''pid'', ''ppid'', ''uid'', ''retval'', ''args_count'', ''args_size'', ''comm'', ''args''] \<and>
   ''gid'' \<notin> fst ` set (event_fields
     (last (rb_records (events (run (init_state 20) [Enter scenario_begin, Exit scenario_end]))))) \<and>
   ''timestamp'' \<notin> fst ` set (event_fields
     (last (rb_records (events (run (init_state 20) [Enter scenario_begin, Exit scenario_end]))))) \<and>
   ''event_type'' \<notin> fst ` set (event_fields
     (last (rb_records (events (run (init_state 20) [Enter scenario_begin, Exit scenario_end]))))) \<and>
   unat (args_size (base
     (last (rb_records (events (run (init_state 20) [Enter scenario_begin, Exit scenario_end])))))) = 11 \<and>
   length (args
     (last (rb_records (events (run (init_state 20) [Enter scenario_begin, Exit scenario_end]))))) = 7680"
proof -
  obtain e where e: "rb_records (events (run (init_state 20) [Enter scenario_begin, Exit scenario_end])) = [e]"
    "unat (args_size (base e)) = 11" "length (args e) = FULL_MAX_ARGS_ARR"
    by (rule scenario_record)
  have n: "fst ` set (event_fields e) = set (map fst (event_fields e))"
    by simp
  show ?thesis
    unfolding e(1) using e(2,3)
    by (simp add: n event_fields_names FULL_val del: set_map)
qed

text \<open>
  C9, as amended.  A fork, exec or exit probe that emits an event for process id \<open>p\<close>
  adds one (on the 64-bit counter) to the counter of \<open>p\<close> when \<open>p\<close> has an entry, and
  creates the entry with value 1 when \<open>p\<close> has none and the table holds fewer than
  \<open>max_entries = 1024\<close> entries; when \<open>p\<close> has none and the table is full, no entry is
  created.  No probe of the collector deletes an entry, and over any sequence of \<open>k\<close>
  invocations a counter of value \<open>n\<close> with \<open>n + k < 2^64\<close> ends with a value between
  \<open>n\<close> and \<open>n + k\<close>: short of wrapping around, it never decreases.
\<close>

theorem counter_follows_emitted_events:
  assumes res: "bpf_ringbuf_reserve process_events_max_entries (process_events s) sizeof_process_event = Some rb"
      and cnt: "map_of (process_stats s') q = Some n"
      and nowrap: "unat n + length ps < 2 ^ 64"
  shows "map_of (process_stats (trace_process_fork s t)) (t_pid t) =
           (case map_of (process_stats s) (t_pid t) of
              Some m \<Rightarrow> Some (m + 1)
            | None \<Rightarrow> if length (process_stats s) < process_stats_max_entries then Some 1 else None) \<and>
         map_of (process_stats (trace_process_exec s t)) (t_pid t) =
           (case map_of (process_stats s) (t_pid t) of
              Some m \<Rightarrow> Some (m + 1)
            | None \<Rightarrow> if length (process_stats s) < process_stats_max_entries then Some 1 else None) \<and>
         map_of (process_stats (trace_process_exit s t)) (t_pid t) =
           (case map_of (process_stats s) (t_pid t) of
              Some m \<Rightarrow> Some (m + 1)
            | None \<Rightarrow> if length (process_stats s) < process_stats_max_entries then Some 1 else None) \<and>
         pe_pid (last (rb_records (process_events (trace_process_fork s t)))) = t_pid t \<and>
         pe_pid (last (rb_records (process_events (trace_process_exec s t)))) = t_pid t \<and>
         pe_pid (last (rb_records (process_events (trace_process_exit s t)))) = t_pid t \<and>
         (\<exists>n'. map_of (process_stats (collect_all s' ps)) q = Some n' \<and>
               unat n \<le> unat n' \<and> unat n' \<le> unat n + length ps)"
proof -
  obtain k where k: "k \<le> length ps" "map_of (process_stats (collect_all s' ps)) q = Some (n + of_nat k)"
    using collect_all_steps [OF cnt] by blast
  have "unat n + k < 2 ^ 64"
    using nowrap k(1) by arith
  then have "unat (n + of_nat k) = unat n + k"
    by (rule counter_no_wrap)
  then have seq: "\<exists>n'. map_of (process_stats (collect_all s' ps)) q = Some n' \<and>
               unat n \<le> unat n' \<and> unat n' \<le> unat n + length ps"
    using k by auto
  have "pe_pid (last (rb_records (process_events (trace_process_fork s t)))) = t_pid t"
    "pe_pid (last (rb_records (process_events (trace_process_exec s t)))) = t_pid t"
    "pe_pid (last (rb_records (process_events (trace_process_exit s t)))) = t_pid t"
    unfolding trace_records [OF res] by (simp_all add: populate_event_common_pid)
  then show ?thesis
    using seq by (simp add: trace_stats_emitted [OF res] map_of_update_process_stats)
qed

theorem counter_follows_emitted_events_witness:
  "map_of (process_stats (trace_process_fork init_collector scenario_task)) 100 = Some 1 \<and>
   map_of (process_stats (trace_process_exec init_collector scenario_task)) 100 = Some 1 \<and>
   map_of (process_stats (trace_process_exit init_collector scenario_task)) 100 = Some 1 \<and>
   pe_pid (last (rb_records (process_events (trace_process_fork init_collector scenario_task)))) = 100 \<and>
   (\<exists>n'. map_of (process_stats (collect_all
             \<lparr>process_events = \<lparr>rb_used = 0, rb_records = [], rb_discarded = 0\<rparr>,
              process_stats = [(100, 5)]\<rparr>
             [Fork scenario_task, Exit_task scenario_task])) 100 = Some n' \<and>
          5 \<le> unat n' \<and> unat n' \<le> 7)"
proof -
  let ?s' = "\<lparr>process_events = \<lparr>rb_used = 0, rb_records = [], rb_discarded = 0\<rparr>,
              process_stats = [(100 :: u32, 5 :: u64)]\<rparr>"
  have res: "bpf_ringbuf_reserve process_events_max_entries (process_events init_collector)
      sizeof_process_event = Some \<lparr>rb_used = 56, rb_records = [], rb_discarded = 0\<rparr>"
    by (simp add: init_collector_def collector_reserve_init)
  have cnt: "map_of (process_stats ?s') 100 = Some 5"
    by simp
  have nowrap: "unat (5 :: u64) + length [Fork scenario_task, Exit_task scenario_task] < 2 ^ 64"
    by simp
  have v: "t_pid scenario_task = 100" "process_stats init_collector = []"
    by (simp_all add: scenario_task_def init_collector_def)
  show ?thesis
    using counter_follows_emitted_events [OF res cnt nowrap, of scenario_task]
    unfolding v by (simp add: process_stats_max_entries_def)
qed

text \<open>
  C9 as stated fails on a full counter table: the fork probe emits an event for process
  id 100, which has no entry, and creates none.
\<close>

theorem counter_not_created_when_table_full:
  "bpf_ringbuf_reserve process_events_max_entries (process_events full_collector) sizeof_process_event \<noteq> None \<and>
   length (rb_records (process_events (trace_process_fork full_collector scenario_task))) = 1 \<and>
   pe_pid (last (rb_records (process_events (trace_process_fork full_collector scenario_task)))) = 100 \<and>
   map_of (process_stats full_collector) 100 = None \<and>
   map_of (process_stats (trace_process_fork full_collector scenario_task)) 100 = None"
proof -
  have res: "bpf_ringbuf_reserve process_events_max_entries (process_events full_collector)
      sizeof_process_event = Some \<lparr>rb_used = 56, rb_records = [], rb_discarded = 0\<rparr>"
    by (simp add: full_collector_def collector_reserve_init)
  have v: "t_pid scenario_task = 100" "process_stats full_collector = full_stats"
    "rb_records (process_events full_collector) = []"
    by (simp_all add: scenario_task_def full_collector_def)
  have "map_of (process_stats (trace_process_fork full_collector scenario_task)) 100 = None"
    unfolding trace_stats_emitted(1) [OF res] v
    by (simp add: map_of_update_process_stats full_stats_100 full_stats_length
        process_stats_max_entries_def)
  moreover have "pe_pid (last (rb_records (process_events (trace_process_fork full_collector scenario_task)))) = 100"
    unfolding trace_records(1) [OF res] by (simp add: populate_event_common_pid v)
  moreover have "length (rb_records (process_events (trace_process_fork full_collector scenario_task))) = 1"
    unfolding trace_records(1) [OF res] by (simp add: v)
  ultimately show ?thesis
    using res by (simp add: v full_stats_100)
qed

text \<open>
  C10.  \<open>populate_event_common\<close> returns 0 whatever it is given.  So in each of the three
  lifecycle probes the branch that discards the slot is never taken: whenever the
  reservation succeeds, the probe submits exactly one record and discards none.
\<close>

theorem populate_never_discards:
  assumes "bpf_ringbuf_reserve process_events_max_entries (process_events s) sizeof_process_event = Some rb"
  shows "fst (populate_event_common ev t) = 0 \<and>
         rb_records (process_events (trace_process_fork s t)) =
           rb_records (process_events s) @
             [(snd (populate_event_common (t_slot t) t))\<lparr>pe_event_type := 0, pe_exit_code := 0\<rparr>] \<and>
         rb_discarded (process_events (trace_process_fork s t)) = rb_discarded (process_events s) \<and>
         rb_records (process_events (trace_process_exec s t)) =
           rb_records (process_events s) @
             [(snd (populate_event_common (t_slot t) t))\<lparr>pe_event_type := 1, pe_exit_code := 0\<rparr>] \<and>
         rb_discarded (process_events (trace_process_exec s t)) = rb_discarded (process_events s) \<and>
         rb_records (process_events (trace_process_exit s t)) =
           rb_records (process_events s) @
             [(snd (populate_event_common (t_slot t) t))\<lparr>pe_event_type := 2, pe_exit_code := t_exit_code t\<rparr>] \<and>
         rb_discarded (process_events (trace_process_exit s t)) = rb_discarded (process_events s)"
proof -
  have rb: "rb_records rb = rb_records (process_events s)" "rb_discarded rb = rb_discarded (process_events s)"
    using assms by (auto simp add: bpf_ringbuf_reserve_def Let_def split: if_splits)
  show ?thesis
    using assms rb
    by (simp add: populate_event_common_ret trace_process_fork_def trace_process_exec_def
        trace_process_exit_def Let_def bpf_ringbuf_submit_def)
qed

theorem populate_never_discards_witness:
  "bpf_ringbuf_reserve process_events_max_entries (process_events init_collector) sizeof_process_event
     = Some \<lparr>rb_used = 56, rb_records = [], rb_discarded = 0\<rparr> \<and>
   length (rb_records (process_events (trace_process_fork init_collector scenario_task))) = 1 \<and>
   rb_discarded (process_events (trace_process_fork init_collector scenario_task)) = 0 \<and>
   length (rb_records (process_events (trace_process_exec init_collector scenario_task))) = 1 \<and>
   length (rb_records (process_events (trace_process_exit init_collector scenario_task))) = 1"
proof -
  have a: "bpf_ringbuf_reserve process_events_max_entries (process_events init_collector) sizeof_process_event
     = Some \<lparr>rb_used = 56, rb_records = [], rb_discarded = 0\<rparr>"
    by (simp add: bpf_ringbuf_reserve_def init_collector_def process_events_max_entries_def
        sizeof_process_event_def BPF_RINGBUF_HDR_SZ_def Let_def)
  have r: "rb_records (process_events init_collector) = []" "rb_discarded (process_events init_collector) = 0"
    by (simp_all add: init_collector_def)
  show ?thesis
    using populate_never_discards [OF a, where t = scenario_task and ev = "t_slot scenario_task"] a
    by (simp add: r)
qed

end
